theory Spec2Isabelle
  imports Complex_Main "HOL-Library.AList"
begin

section \<open>Strings, numbers and regular expressions of the script\<close>

text \<open>
  The landing page script \<^verbatim>\<open>app.js\<close> works on JavaScript strings. A string is modelled
  as a \<^typ>\<open>string\<close>, each \<^typ>\<open>char\<close> standing for the UTF-16 code unit of the same
  number (U+0000 to U+00FF); \<open>length\<close> is then the script's \<^verbatim>\<open>.length\<close>. Code units
  above U+00FF are outside the model.
\<close>

text \<open>
  White space as ECMAScript defines it for \<^verbatim>\<open>\s\<close> and for \<^verbatim>\<open>trim()\<close>: TAB, LF, VT,
  FF, CR, SPACE and NBSP among the code units up to U+00FF.
\<close>

definition is_space :: "char \<Rightarrow> bool" where
  "is_space c = (of_char c \<in> {9, 10, 11, 12, 13, 32, 160 :: nat})"

text \<open>The class \<^verbatim>\<open>[a-zA-Z]\<close>.\<close>

definition is_letter :: "char \<Rightarrow> bool" where
  "is_letter c =
     (let n = (of_char c :: nat) in (65 \<le> n \<and> n \<le> 90) \<or> (97 \<le> n \<and> n \<le> 122))"

text \<open>The class \<^verbatim>\<open>[0-9]\<close> (and \<^verbatim>\<open>\D\<close> is its complement).\<close>

definition is_digit :: "char \<Rightarrow> bool" where
  "is_digit c = (let n = (of_char c :: nat) in 48 \<le> n \<and> n \<le> 57)"

text \<open>\<^verbatim>\<open>String.prototype.trim\<close>: white space is removed at both ends.\<close>

definition trim :: "string \<Rightarrow> string" where
  "trim s = rev (dropWhile is_space (rev (dropWhile is_space s)))"

text \<open>\<^verbatim>\<open>s.includes(t)\<close>: \<open>t\<close> occurs in \<open>s\<close> as a contiguous substring.\<close>

fun str_includes :: "string \<Rightarrow> string \<Rightarrow> bool" where
  "str_includes [] t = (t = [])"
| "str_includes (c # cs) t = (take (length t) (c # cs) = t \<or> str_includes cs t)"

text \<open>
  A number printed by a template literal. The numbers the script prints are integers;
  JavaScript prints an integer of magnitude below \<open>10\<^sup>2\<^sup>1\<close> in plain decimal, which is
  what \<open>string_of_int\<close> does for every integer.
\<close>

fun string_of_nat :: "nat \<Rightarrow> string" where
  "string_of_nat n =
     (if n < 10 then [''0123456789'' ! n]
      else string_of_nat (n div 10) @ [''0123456789'' ! (n mod 10)])"

declare string_of_nat.simps [simp del]

definition string_of_int :: "int \<Rightarrow> string" where
  "string_of_int i = (if i < 0 then CHR ''-'' # string_of_nat (nat (- i)) else string_of_nat (nat i))"

text \<open>
  \<^verbatim>\<open>parseInt(s)\<close> with no radix: leading white space is skipped, a sign is read, the
  prefix \<^verbatim>\<open>0x\<close> or \<^verbatim>\<open>0X\<close> selects radix 16, and the longest run of digits of the radix
  is the value. No digit at all gives \<^verbatim>\<open>NaN\<close>, which is \<open>None\<close> here. (The rounding of
  integers above \<open>2\<^sup>5\<^sup>3\<close> to a double is not modelled.)
\<close>

definition digit_value :: "char \<Rightarrow> nat" where
  "digit_value c =
     (let n = (of_char c :: nat) in
      if 48 \<le> n \<and> n \<le> 57 then n - 48
      else if 97 \<le> n \<and> n \<le> 102 then n - 87
      else if 65 \<le> n \<and> n \<le> 70 then n - 55
      else 36)"

definition parse_digits :: "nat \<Rightarrow> string \<Rightarrow> int option" where
  "parse_digits radix s =
     (let z = takeWhile (\<lambda>c. digit_value c < radix) s in
      if z = [] then None
      else Some (int (foldl (\<lambda>acc c. acc * radix + digit_value c) 0 z)))"

definition parseInt :: "string \<Rightarrow> int option" where
  "parseInt str =
     (let s = dropWhile is_space str;
          neg = (take 1 s = ''-'');
          s1 = (if take 1 s = ''-'' \<or> take 1 s = ''+'' then drop 1 s else s);
          hex = (take 2 s1 = ''0x'' \<or> take 2 s1 = ''0X'');
          r = (if hex then parse_digits 16 (drop 2 s1) else parse_digits 10 s1)
      in map_option (\<lambda>n. if neg then - n else n) r)"

subsection \<open>Regular expressions\<close>

text \<open>
  The script's three regular expressions are anchored at both ends (\<^verbatim>\<open>^...$\<close>) and use
  character classes, concatenation, \<^verbatim>\<open>+\<close>, \<^verbatim>\<open>*\<close> and \<^verbatim>\<open>{2,}\<close> only, with no flags.
  \<^verbatim>\<open>re.test(s)\<close> then says whether the whole of \<open>s\<close> matches; it is computed here by
  derivatives of the expression.
\<close>

datatype rexp =
    Never
  | Epsilon
  | Class "char \<Rightarrow> bool"
  | Alt rexp rexp
  | Cat rexp rexp
  | Star rexp

fun nullable :: "rexp \<Rightarrow> bool" where
  "nullable Never = False"
| "nullable Epsilon = True"
| "nullable (Class p) = False"
| "nullable (Alt r s) = (nullable r \<or> nullable s)"
| "nullable (Cat r s) = (nullable r \<and> nullable s)"
| "nullable (Star r) = True"

fun deriv :: "char \<Rightarrow> rexp \<Rightarrow> rexp" where
  "deriv c Never = Never"
| "deriv c Epsilon = Never"
| "deriv c (Class p) = (if p c then Epsilon else Never)"
| "deriv c (Alt r s) = Alt (deriv c r) (deriv c s)"
| "deriv c (Cat r s) =
     (if nullable r then Alt (Cat (deriv c r) s) (deriv c s) else Cat (deriv c r) s)"
| "deriv c (Star r) = Cat (deriv c r) (Star r)"

definition test :: "rexp \<Rightarrow> string \<Rightarrow> bool" where
  "test r s = nullable (fold deriv s r)"

text \<open>\<^verbatim>\<open>r+\<close> and \<^verbatim>\<open>r{2,}\<close>.\<close>

definition Plus :: "rexp \<Rightarrow> rexp" where
  "Plus r = Cat r (Star r)"

definition AtLeast2 :: "rexp \<Rightarrow> rexp" where
  "AtLeast2 r = Cat r (Cat r (Star r))"

text \<open>\<^verbatim>\<open>const emailRegex = /^[^\s@]+@[^\s@]+\.[^\s@]+$/;\<close>\<close>

definition emailRegex :: rexp where
  "emailRegex =
     Cat (Plus (Class (\<lambda>c. \<not> (is_space c \<or> c = CHR ''@''))))
    (Cat (Class (\<lambda>c. c = CHR ''@''))
    (Cat (Plus (Class (\<lambda>c. \<not> (is_space c \<or> c = CHR ''@''))))
    (Cat (Class (\<lambda>c. c = CHR ''.''))
         (Plus (Class (\<lambda>c. \<not> (is_space c \<or> c = CHR ''@'')))))))"

text \<open>\<^verbatim>\<open>const nameRegex = /^[a-zA-Z\s]{2,}$/;\<close>\<close>

definition nameRegex :: rexp where
  "nameRegex = AtLeast2 (Class (\<lambda>c. is_letter c \<or> is_space c))"

text \<open>The literal \<^verbatim>\<open>/^[0-9]*$/\<close> of the DOT number rule.\<close>

definition dotRegex :: rexp where
  "dotRegex = Star (Class is_digit)"

section \<open>The data of the page\<close>

subsection \<open>Events and leads\<close>

text \<open>
  A tracked event is a JavaScript object. An object is modelled as the list of its
  properties in insertion order; assigning to a key that is present replaces the value
  in place, which is \<^const>\<open>AList.update\<close>. (All keys of the script are identifiers, for
  which insertion order is the enumeration order.) The string that
  \<^verbatim>\<open>new Date().toISOString()\<close> gives is represented by the instant it prints,
  \<open>JIso t\<close> with \<open>t\<close> in milliseconds.
\<close>

datatype jsval = JStr string | JNum int | JIso int | JUndefined | JNull

type_synonym obj = "(string \<times> jsval) list"

text \<open>Object spread \<^verbatim>\<open>{ ...target, ...src }\<close>: the properties of \<open>src\<close> are assigned in order.\<close>

definition spread :: "obj \<Rightarrow> obj \<Rightarrow> obj" where
  "spread target src = fold (\<lambda>(k, v). AList.update k v) src target"

datatype variant = VariantA | VariantB

fun variant_str :: "variant \<Rightarrow> string" where
  "variant_str VariantA = ''A''"
| "variant_str VariantB = ''B''"

text \<open>
  A lead \<^verbatim>\<open>{ type, timestamp, data }\<close>; \<open>data\<close> maps field names to submitted strings, and
  the timestamp is the instant whose ISO string the script stores.
\<close>

record lead =
  lead_type :: string
  lead_timestamp :: int
  lead_data :: "(string \<times> string) list"

text \<open>
  \<^verbatim>\<open>const state = { sessionId, variant, startTime, events: [], leads: [],
  scrollDepths: new Set(), timeMilestones: new Set() };\<close>
\<close>

record state =
  sessionId :: string
  variant :: variant
  startTime :: int
  events :: "obj list"
  leads :: "lead list"
  scrollDepths :: "int set"
  timeMilestones :: "int set"

subsection \<open>The document\<close>

text \<open>
  The markup of the page is not part of the script. The document is modelled by the parts
  the validation, modal and submission code reads or writes:
  \<^item> the form controls, in document order, each with its \<^verbatim>\<open>id\<close>, \<^verbatim>\<open>type\<close>, current and
    default \<^verbatim>\<open>value\<close>, the attributes \<^verbatim>\<open>required\<close> and \<^verbatim>\<open>minlength\<close> (\<open>None\<close> when the
    attribute is absent), the id of the form it stands in, and the classes
    \<^verbatim>\<open>form-input\<close>, \<^verbatim>\<open>valid\<close> and \<^verbatim>\<open>invalid\<close>;
  \<^item> the text of the other elements that have an id (\<open>None\<close>: no such element);
  \<^item> for each key of \<^verbatim>\<open>modals\<close> whether its element exists (\<open>None\<close>: it does not) and
    has the class \<^verbatim>\<open>active\<close>;
  \<^item> \<^verbatim>\<open>document.body.style.overflow\<close>, the \<^verbatim>\<open>data-variant\<close> attribute of the body, the
    toast, and for each form the classes of its submit button, of the form and of its
    success panel.
  Elements the script dereferences without a null check (the toast, the forms, their
  submit buttons and success panels) exist in the model. Focus and console output are not
  represented.
\<close>

record input =
  inp_id :: string
  inp_type :: string
  inp_value :: string
  inp_default :: string
  inp_required :: bool
  inp_minlength :: "string option"
  inp_form :: "string option"
  inp_form_input :: bool
  inp_valid :: bool
  inp_invalid :: bool

datatype modal_name = Choice | Enterprise | Carrier

record form_ui =
  loading :: bool
  disabled :: bool
  submitted :: bool
  success_shown :: bool

record dom =
  inputs :: "input list"
  texts :: "string \<rightharpoonup> string"
  modal_active :: "modal_name \<rightharpoonup> bool"
  body_overflow :: string
  body_data_variant :: string
  toast_text :: string
  toast_shown :: bool
  enterprise_ui :: form_ui
  carrier_ui :: form_ui
  email_display :: string
  email_success_shown :: bool

text \<open>The whole of what a handler can read and write: the \<^verbatim>\<open>state\<close> object and the document.\<close>

record world =
  st :: state
  doc :: dom

section \<open>Analytics tracking\<close>

text \<open>
  \<^verbatim>\<open>function trackEvent(eventName, data = {})\<close>. The clock is an input: \<open>now\<close> is what
  \<^verbatim>\<open>new Date()\<close> reads. One handler run reads the clock as one instant.
\<close>

definition trackEvent :: "string \<Rightarrow> obj \<Rightarrow> int \<Rightarrow> state \<Rightarrow> state" where
  "trackEvent eventName data now s =
     s\<lparr>events := events s @
        [spread [(''event'', JStr eventName),
                 (''timestamp'', JIso now),
                 (''variant'', JStr (variant_str (variant s))),
                 (''sessionId'', JStr (sessionId s))] data]\<rparr>"

definition track :: "string \<Rightarrow> obj \<Rightarrow> int \<Rightarrow> world \<Rightarrow> world" where
  "track eventName data now w = w\<lparr>st := trackEvent eventName data now (st w)\<rparr>"

text \<open>Reading a property of an object.\<close>

definition get_prop :: "obj \<Rightarrow> string \<Rightarrow> jsval option" where
  "get_prop ob k = map_of ob k"

section \<open>Form validation\<close>

text \<open>
  \<^verbatim>\<open>function validateField(input)\<close>, in two parts. \<open>validate\<close> is the decision of lines
  263 to 287: the pair of \<^verbatim>\<open>isValid\<close> and \<^verbatim>\<open>errorMsg\<close>. \<open>validateField\<close> adds the
  update of the document of lines 289 to 303 and returns \<^verbatim>\<open>isValid\<close>, the element as it
  is afterwards, and the texts of the document.
\<close>

definition validate :: "input \<Rightarrow> bool \<times> string" where
  "validate input =
     (let value = trim (inp_value input); type = inp_type input; id = inp_id input in
      if inp_required input \<and> value = [] then (False, ''This field is required'')
      else if type = ''email'' \<and> value \<noteq> [] \<and> \<not> test emailRegex value
        then (False, ''Please enter a valid email'')
      else (case inp_minlength input of
        Some attr \<Rightarrow>
          (case parseInt attr of
             Some minLength \<Rightarrow>
               if int (length value) < minLength
               then (False, ''Minimum '' @ string_of_int minLength @ '' characters required'')
               else (True, [])
           | None \<Rightarrow> (True, []))
      | None \<Rightarrow>
          if str_includes id ''Name'' \<and> value \<noteq> [] \<and> \<not> test nameRegex value
            then (False, ''Please enter a valid name (letters only)'')
          else if str_includes id ''DOT'' \<and> value \<noteq> [] \<and> \<not> test dotRegex value
            then (False, ''DOT number must be numeric'')
          else (True, [])))"

definition validateField ::
  "input \<Rightarrow> (string \<rightharpoonup> string) \<Rightarrow> bool \<times> input \<times> (string \<rightharpoonup> string)" where
  "validateField input tx =
     (let (isValid, errorMsg) = validate input;
          value = trim (inp_value input);
          errorEl = inp_id input @ ''Error'';
          tx' = (if tx errorEl \<noteq> None then tx(errorEl \<mapsto> errorMsg) else tx);
          input' =
            (if isValid \<and> value \<noteq> [] then input\<lparr>inp_valid := True, inp_invalid := False\<rparr>
             else if \<not> isValid then input\<lparr>inp_invalid := True, inp_valid := False\<rparr>
             else input\<lparr>inp_valid := False, inp_invalid := False\<rparr>)
      in (isValid, input', tx'))"

text \<open>
  The two writes of \<open>validateField\<close>, each on its own: the classes it leaves on the field, and
  the message it leaves in the field's error element.
\<close>

definition marked :: "input \<Rightarrow> input" where
  "marked x =
     x\<lparr>inp_valid := fst (validate x) \<and> trim (inp_value x) \<noteq> [], inp_invalid := \<not> fst (validate x)\<rparr>"

definition with_message :: "input \<Rightarrow> (string \<rightharpoonup> string) \<Rightarrow> (string \<rightharpoonup> string)" where
  "with_message x tx =
     (if tx (inp_id x @ ''Error'') = None then tx else tx(inp_id x @ ''Error'' \<mapsto> snd (validate x)))"

text \<open>
  The loop \<^verbatim>\<open>inputs.forEach(input => { if (!validateField(input)) allValid = false; })\<close>
  over the controls that a selector picks, in document order. Every selected control is
  validated (the loop does not stop at the first failure); the result is \<^verbatim>\<open>allValid\<close>,
  the controls and the texts afterwards.
\<close>

fun validate_inputs ::
  "(input \<Rightarrow> bool) \<Rightarrow> input list \<Rightarrow> (string \<rightharpoonup> string) \<Rightarrow> bool \<times> input list \<times> (string \<rightharpoonup> string)" where
  "validate_inputs sel [] tx = (True, [], tx)"
| "validate_inputs sel (x # xs) tx =
     (if sel x then
        (let (isValid, x', tx1) = validateField x tx;
             (allValid, xs', tx2) = validate_inputs sel xs tx1
         in (isValid \<and> allValid, x' # xs', tx2))
      else
        (let (allValid, xs', tx2) = validate_inputs sel xs tx
         in (allValid, x # xs', tx2)))"

text \<open>The selector \<^verbatim>\<open>form.querySelectorAll('.form-input[required]')\<close> for the form with id \<open>f\<close>.\<close>

definition required_in :: "string \<Rightarrow> input \<Rightarrow> bool" where
  "required_in f x = (inp_form x = Some f \<and> inp_form_input x \<and> inp_required x)"

section \<open>Modals\<close>

text \<open>
  \<^verbatim>\<open>const modals = { choice: ..., enterprise: ..., carrier: ... }\<close>. Every call of
  \<open>openModal\<close> and \<open>closeModal\<close> passes one of the three keys, so a modal name is a
  value of \<^typ>\<open>modal_name\<close>; \<open>modal_key\<close> is the key as the string that goes into the event.
\<close>

fun modal_key :: "modal_name \<Rightarrow> string" where
  "modal_key Choice = ''choice''"
| "modal_key Enterprise = ''enterprise''"
| "modal_key Carrier = ''carrier''"

definition openModal :: "modal_name \<Rightarrow> int \<Rightarrow> world \<Rightarrow> world" where
  "openModal modalName now w =
     (case modal_active (doc w) modalName of
        None \<Rightarrow> w
      | Some _ \<Rightarrow>
          track ''modal_opened'' [(''modal'', JStr (modal_key modalName))] now
            (w\<lparr>doc := (doc w)\<lparr>modal_active := (modal_active (doc w))(modalName \<mapsto> True),
                                body_overflow := ''hidden''\<rparr>\<rparr>))"

definition closeModal :: "modal_name \<Rightarrow> int \<Rightarrow> world \<Rightarrow> world" where
  "closeModal modalName now w =
     (case modal_active (doc w) modalName of
        None \<Rightarrow> w
      | Some _ \<Rightarrow>
          track ''modal_closed'' [(''modal'', JStr (modal_key modalName))] now
            (w\<lparr>doc := (doc w)\<lparr>modal_active := (modal_active (doc w))(modalName \<mapsto> False),
                                body_overflow := []\<rparr>\<rparr>))"

text \<open>The Escape key: \<^verbatim>\<open>Object.keys(modals).forEach(key => closeModal(key))\<close>.\<close>

definition escape_key :: "int \<Rightarrow> world \<Rightarrow> world" where
  "escape_key now w = fold (\<lambda>key. closeModal key now) [Choice, Enterprise, Carrier] w"

section \<open>Form submission\<close>

text \<open>\<^verbatim>\<open>function showToast(message)\<close>; its timer hides the toast three seconds later.\<close>

definition showToast :: "string \<Rightarrow> dom \<Rightarrow> dom" where
  "showToast message d = d\<lparr>toast_text := message, toast_shown := True\<rparr>"

definition toast_hide :: "dom \<Rightarrow> dom" where
  "toast_hide d = d\<lparr>toast_shown := False\<rparr>"

text \<open>
  \<^verbatim>\<open>document.getElementById(i).value\<close> for a form control: \<open>None\<close> when no control has
  the id, where the script throws a \<^verbatim>\<open>TypeError\<close>.
\<close>

definition field_value :: "dom \<Rightarrow> string \<Rightarrow> string option" where
  "field_value d i = map_option inp_value (find (\<lambda>x. inp_id x = i) (inputs d))"

text \<open>
  The object literal \<^verbatim>\<open>formData\<close>: each key with the value of the control of the given
  id, read in order; \<open>None\<close> when a read throws.
\<close>

fun collect :: "dom \<Rightarrow> (string \<times> string) list \<Rightarrow> (string \<times> string) list option" where
  "collect d [] = Some []"
| "collect d ((k, i) # rest) =
     (case field_value d i of
        None \<Rightarrow> None
      | Some v \<Rightarrow> (case collect d rest of None \<Rightarrow> None | Some r \<Rightarrow> Some ((k, v) # r)))"

definition enterprise_fields :: "(string \<times> string) list" where
  "enterprise_fields =
     [(''name'', ''entName''), (''email'', ''entEmail''), (''company'', ''entCompany''),
      (''phone'', ''entPhone''), (''fleetSize'', ''entFleetSize''), (''message'', ''entMessage'')]"

definition carrier_fields :: "(string \<times> string) list" where
  "carrier_fields =
     [(''name'', ''carName''), (''email'', ''carEmail''), (''company'', ''carCompany''),
      (''phone'', ''carPhone''), (''fleetType'', ''carFleetType''),
      (''vehicleCount'', ''carVehicleCount''), (''dot'', ''carDOT''),
      (''insurance'', ''carInsurance''), (''message'', ''carMessage'')]"

text \<open>
  How a run of a submit handler ends: \<open>Blocked\<close> at the validation gate (the early
  \<^verbatim>\<open>return\<close>), \<open>Threw\<close> on a \<^verbatim>\<open>TypeError\<close>, \<open>Pending\<close> at the \<^verbatim>\<open>await\<close> of the simulated
  processing with the \<^verbatim>\<open>formData\<close> it has collected, \<open>Completed\<close> at its end. Each carries
  the world as the run leaves it.
\<close>

datatype outcome =
    Blocked world
  | Threw world
  | Pending world "(string \<times> string) list"
  | Completed world

fun world_of :: "outcome \<Rightarrow> world" where
  "world_of (Blocked w) = w"
| "world_of (Threw w) = w"
| "world_of (Pending w formData) = w"
| "world_of (Completed w) = w"

text \<open>
  The enterprise form's submit handler (lines 332 to 392), in the three runs the event
  loop makes of it: up to the \<^verbatim>\<open>await\<close>; from the \<^verbatim>\<open>await\<close> to the end of the handler,
  1500 ms later; and the timer callback, 3000 ms after that. Other handlers can run in
  between.
\<close>

definition enterprise_submit :: "world \<Rightarrow> outcome" where
  "enterprise_submit w =
     (let d = doc w;
          (allValid, inputs', tx') =
             validate_inputs (required_in ''enterpriseForm'') (inputs d) (texts d);
          d1 = d\<lparr>inputs := inputs', texts := tx'\<rparr>
      in if \<not> allValid
         then Blocked (w\<lparr>doc := showToast ''Please fill in all required fields correctly'' d1\<rparr>)
         else
           (let d2 = d1\<lparr>enterprise_ui := (enterprise_ui d1)\<lparr>loading := True, disabled := True\<rparr>\<rparr>
            in case collect d2 enterprise_fields of
                 None \<Rightarrow> Threw (w\<lparr>doc := d2\<rparr>)
               | Some formData \<Rightarrow> Pending (w\<lparr>doc := d2\<rparr>) formData))"

definition enterprise_complete :: "(string \<times> string) list \<Rightarrow> int \<Rightarrow> world \<Rightarrow> world" where
  "enterprise_complete formData now w =
     (let lead = \<lparr>lead_type = ''enterprise'', lead_timestamp = now, lead_data = formData\<rparr>;
          w1 = w\<lparr>st := (st w)\<lparr>leads := leads (st w) @ [lead]\<rparr>\<rparr>;
          w2 = track ''form_submitted''
                 [(''formType'', JStr ''enterprise''),
                  (''variant'', JStr (variant_str (variant (st w1))))] now w1
      in w2\<lparr>doc := (doc w2)\<lparr>enterprise_ui :=
            (enterprise_ui (doc w2))\<lparr>submitted := True, success_shown := True\<rparr>\<rparr>\<rparr>)"

text \<open>
  \<^verbatim>\<open>form.reset()\<close> gives every control of the form its default value; the last loop of
  the timer callback clears the markers of every \<^verbatim>\<open>.form-input\<close> of the document.
\<close>

definition reset_inputs :: "string \<Rightarrow> input list \<Rightarrow> input list" where
  "reset_inputs f xs =
     map (\<lambda>x. let x' = (if inp_form x = Some f then x\<lparr>inp_value := inp_default x\<rparr> else x)
              in if inp_form_input x' then x'\<lparr>inp_valid := False, inp_invalid := False\<rparr> else x') xs"

definition enterprise_reset :: "int \<Rightarrow> world \<Rightarrow> world" where
  "enterprise_reset now w =
     (let w1 = closeModal Enterprise now w; d = doc w1
      in w1\<lparr>doc := d\<lparr>enterprise_ui :=
                        \<lparr>loading = False, disabled = False, submitted = False, success_shown = False\<rparr>,
                      inputs := reset_inputs ''enterpriseForm'' (inputs d)\<rparr>\<rparr>)"

text \<open>The submission flow run through with no other handler in between.\<close>

definition enterprise_flow :: "int \<Rightarrow> int \<Rightarrow> world \<Rightarrow> world option" where
  "enterprise_flow t1 t2 w =
     (case enterprise_submit w of
        Pending w1 formData \<Rightarrow> Some (enterprise_reset t2 (enterprise_complete formData t1 w1))
      | _ \<Rightarrow> None)"

text \<open>The carrier form's submit handler (lines 401 to 464), in the same three runs.\<close>

definition carrier_submit :: "world \<Rightarrow> outcome" where
  "carrier_submit w =
     (let d = doc w;
          (allValid, inputs', tx') =
             validate_inputs (required_in ''carrierForm'') (inputs d) (texts d);
          d1 = d\<lparr>inputs := inputs', texts := tx'\<rparr>
      in if \<not> allValid
         then Blocked (w\<lparr>doc := showToast ''Please fill in all required fields correctly'' d1\<rparr>)
         else
           (let d2 = d1\<lparr>carrier_ui := (carrier_ui d1)\<lparr>loading := True, disabled := True\<rparr>\<rparr>
            in case collect d2 carrier_fields of
                 None \<Rightarrow> Threw (w\<lparr>doc := d2\<rparr>)
               | Some formData \<Rightarrow> Pending (w\<lparr>doc := d2\<rparr>) formData))"

definition carrier_complete :: "(string \<times> string) list \<Rightarrow> int \<Rightarrow> world \<Rightarrow> world" where
  "carrier_complete formData now w =
     (let lead = \<lparr>lead_type = ''carrier'', lead_timestamp = now, lead_data = formData\<rparr>;
          w1 = w\<lparr>st := (st w)\<lparr>leads := leads (st w) @ [lead]\<rparr>\<rparr>;
          w2 = track ''form_submitted'' [(''formType'', JStr ''carrier'')] now w1
      in w2\<lparr>doc := (doc w2)\<lparr>carrier_ui :=
            (carrier_ui (doc w2))\<lparr>submitted := True, success_shown := True\<rparr>\<rparr>\<rparr>)"

definition carrier_reset :: "int \<Rightarrow> world \<Rightarrow> world" where
  "carrier_reset now w =
     (let w1 = closeModal Carrier now w; d = doc w1
      in w1\<lparr>doc := d\<lparr>carrier_ui :=
                        \<lparr>loading = False, disabled = False, submitted = False, success_shown = False\<rparr>,
                      inputs := reset_inputs ''carrierForm'' (inputs d)\<rparr>\<rparr>)"

text \<open>
  The email capture form's submit handler (lines 472 to 505): it has no \<^verbatim>\<open>await\<close>, and
  its gate is the email expression itself, on the trimmed value of \<^verbatim>\<open>quickEmail\<close>.
\<close>

fun set_value :: "string \<Rightarrow> string \<Rightarrow> input list \<Rightarrow> input list" where
  "set_value i v [] = []"
| "set_value i v (x # xs) = (if inp_id x = i then x\<lparr>inp_value := v\<rparr> # xs else x # set_value i v xs)"

definition email_submit :: "int \<Rightarrow> world \<Rightarrow> outcome" where
  "email_submit now w =
     (case field_value (doc w) ''quickEmail'' of
        None \<Rightarrow> Threw w
      | Some v \<Rightarrow>
          (let email = trim v in
           if \<not> test emailRegex email
           then Blocked (w\<lparr>doc := showToast ''Please enter a valid email'' (doc w)\<rparr>)
           else
             (let lead = \<lparr>lead_type = ''email'', lead_timestamp = now,
                          lead_data = [(''email'', email)]\<rparr>;
                  w1 = w\<lparr>st := (st w)\<lparr>leads := leads (st w) @ [lead]\<rparr>\<rparr>;
                  w2 = track ''email_captured'' [(''email'', JStr email)] now w1
              in Completed (w2\<lparr>doc := (doc w2)\<lparr>email_display := ''none'',
                                                email_success_shown := True\<rparr>\<rparr>))))"

definition email_reset :: "dom \<Rightarrow> dom" where
  "email_reset d =
     d\<lparr>email_display := ''flex'', email_success_shown := False,
       inputs := set_value ''quickEmail'' [] (inputs d)\<rparr>"

section \<open>Scroll depth and time on page\<close>

text \<open>
  The scroll listener computes \<^verbatim>\<open>scrollPercent\<close> from the viewport in floating point
  (lines 87 to 89). The division can give \<^verbatim>\<open>NaN\<close> or an infinity when the document is
  no taller than the window, so the percentage is an input of the model: an integer,
  \<^verbatim>\<open>NaN\<close>, or an infinity. \<open>js_ge\<close> is \<^verbatim>\<open>>=\<close> against a milestone.
\<close>

datatype jsnum = Fin int | PosInfinity | NegInfinity | NaN

fun js_ge :: "jsnum \<Rightarrow> int \<Rightarrow> bool" where
  "js_ge (Fin n) m = (m \<le> n)"
| "js_ge PosInfinity m = True"
| "js_ge NegInfinity m = False"
| "js_ge NaN m = False"

text \<open>The body of \<^verbatim>\<open>[25, 50, 75, 100].forEach(milestone => ...)\<close> and the listener.\<close>

definition scroll_milestone :: "jsnum \<Rightarrow> int \<Rightarrow> int \<Rightarrow> state \<Rightarrow> state" where
  "scroll_milestone scrollPercent now milestone s =
     (if js_ge scrollPercent milestone \<and> milestone \<notin> scrollDepths s
      then trackEvent ''scroll_depth'' [(''depth'', JNum milestone)] now
             (s\<lparr>scrollDepths := insert milestone (scrollDepths s)\<rparr>)
      else s)"

definition scroll_handler :: "jsnum \<Rightarrow> int \<Rightarrow> state \<Rightarrow> state" where
  "scroll_handler scrollPercent now s = fold (scroll_milestone scrollPercent now) [25, 50, 75, 100] s"

text \<open>
  The interval callback: \<^verbatim>\<open>Math.floor((Date.now() - state.startTime) / 1000)\<close> is the
  floor division of integers.
\<close>

definition time_milestone :: "int \<Rightarrow> int \<Rightarrow> int \<Rightarrow> state \<Rightarrow> state" where
  "time_milestone timeOnPage now milestone s =
     (if timeOnPage \<ge> milestone \<and> milestone \<notin> timeMilestones s
      then trackEvent ''time_on_page'' [(''seconds'', JNum milestone)] now
             (s\<lparr>timeMilestones := insert milestone (timeMilestones s)\<rparr>)
      else s)"

definition time_handler :: "int \<Rightarrow> state \<Rightarrow> state" where
  "time_handler now s =
     (let timeOnPage = (now - startTime s) div 1000
      in fold (time_milestone timeOnPage now) [30, 60, 120] s)"

text \<open>Events by name and by milestone.\<close>

definition is_event :: "string \<Rightarrow> obj \<Rightarrow> bool" where
  "is_event name e = (get_prop e ''event'' = Some (JStr name))"

definition is_scroll_depth :: "int \<Rightarrow> obj \<Rightarrow> bool" where
  "is_scroll_depth m e = (is_event ''scroll_depth'' e \<and> get_prop e ''depth'' = Some (JNum m))"

definition is_time_on_page :: "int \<Rightarrow> obj \<Rightarrow> bool" where
  "is_time_on_page m e = (is_event ''time_on_page'' e \<and> get_prop e ''seconds'' = Some (JNum m))"

section \<open>Countdown\<close>

text \<open>
  \<^verbatim>\<open>updateCountdown\<close> (lines 632 to 643). \<open>diff\<close> is an integer number of milliseconds;
  for a positive integer \<^verbatim>\<open>Math.floor((diff / k) % n)\<close> is \<open>(diff div k) mod n\<close>. The
  callback exists only when the element \<^verbatim>\<open>countdown\<close> does.
\<close>

definition countdown_end :: "int \<Rightarrow> int" where
  "countdown_end loaded = loaded + 6 * 24 * 60 * 60 * 1000 + 23 * 60 * 60 * 1000 + 45 * 60 * 1000 + 12 * 1000"

definition countdown_text :: "int \<Rightarrow> int \<Rightarrow> string" where
  "countdown_text endTime now =
     (let diff = endTime - now in
      if diff \<le> 0 then ''Expired''
      else
        (let d = diff div (1000 * 60 * 60 * 24);
             h = (diff div (1000 * 60 * 60)) mod 24;
             m = (diff div (1000 * 60)) mod 60;
             s = (diff div 1000) mod 60
         in string_of_int d @ ''d '' @ string_of_int h @ ''h '' @ string_of_int m @ ''m '' @
            string_of_int s @ ''s''))"

definition updateCountdown :: "int \<Rightarrow> int \<Rightarrow> dom \<Rightarrow> dom" where
  "updateCountdown endTime now d =
     (if texts d ''countdown'' = None then d
      else d\<lparr>texts := (texts d)(''countdown'' \<mapsto> countdown_text endTime now)\<rparr>)"

section \<open>The session\<close>

text \<open>
  The start of the script (lines 4 to 58). The random draws are inputs: \<open>suffix\<close> is
  \<^verbatim>\<open>Math.random().toString(36).substr(2, 9)\<close> and \<open>draw\<close> is the \<^verbatim>\<open>Math.random()\<close> of the
  variant, a number in \<open>[0, 1)\<close>.
\<close>

definition generateSessionId :: "int \<Rightarrow> string \<Rightarrow> string" where
  "generateSessionId now suffix = ''session_'' @ string_of_int now @ ''_'' @ suffix"

definition assign_variant :: "rat \<Rightarrow> variant" where
  "assign_variant draw = (if draw < 1 / 2 then VariantA else VariantB)"

definition init_state :: "int \<Rightarrow> string \<Rightarrow> rat \<Rightarrow> state" where
  "init_state now suffix draw =
     \<lparr>sessionId = generateSessionId now suffix,
      variant = assign_variant draw,
      startTime = now,
      events = [],
      leads = [],
      scrollDepths = {},
      timeMilestones = {}\<rparr>"

definition page_load :: "int \<Rightarrow> string \<Rightarrow> rat \<Rightarrow> dom \<Rightarrow> world" where
  "page_load now suffix draw d =
     (let s = init_state now suffix draw;
          d1 = d\<lparr>body_data_variant := variant_str (variant s)\<rparr>;
          d2 = (if variant s = VariantB
                then d1\<lparr>texts := (texts d1)(''enterpriseCta'' \<mapsto> ''Get a Quote in 60 Seconds'')\<rparr>
                else d1)
      in \<lparr>st = trackEvent ''page_view'' [] now s, doc = d2\<rparr>)"

section \<open>The handlers of a session\<close>

text \<open>
  Every listener, timer callback and continuation of the script that reads or writes
  \<^verbatim>\<open>state\<close>, as an action; \<open>step now a\<close> runs it at the instant \<open>now\<close>. An action stands
  for a run in which the listener's own guard holds (a navigation link whose target
  exists, a chat bubble click that opens the window, a chat message that is not empty).
  What the user and the widgets do to the document without touching \<^verbatim>\<open>state\<close> (typing,
  validation on blur, the carousels, the chat log) is an arbitrary \<open>DomEdit\<close>.
\<close>

datatype action =
    VideoLoaded
  | VideoError string
  | Scroll jsnum
  | Tick
  | NavClick string
  | CloseClick modal_name
  | EscapeKey
  | HeaderSignup
  | EnterpriseCta
  | CarrierCta
  | ChoiceEnterprise
  | ChoiceCarrier
  | Fab
  | EnterpriseSubmit
  | EnterpriseComplete "(string \<times> string) list"
  | EnterpriseReset
  | CarrierSubmit
  | CarrierComplete "(string \<times> string) list"
  | CarrierReset
  | EmailSubmit
  | EmailReset
  | ToastHide
  | BannerDismiss
  | ActivityDismiss
  | ScreenshotTab jsval
  | FaqClick string
  | ChatOpened
  | ChatQuickAction jsval
  | ChatMessage
  | FinalEnterprise
  | FinalCarrier
  | DomEdit "dom \<Rightarrow> dom"

fun step :: "int \<Rightarrow> action \<Rightarrow> world \<Rightarrow> world" where
  "step now VideoLoaded w = track ''video_loaded'' [] now w"
| "step now (VideoError ty) w = track ''video_error'' [(''error'', JStr ty)] now w"
| "step now (Scroll scrollPercent) w = w\<lparr>st := scroll_handler scrollPercent now (st w)\<rparr>"
| "step now Tick w = w\<lparr>st := time_handler now (st w)\<rparr>"
| "step now (NavClick targetId) w = track ''nav_click'' [(''target'', JStr targetId)] now w"
| "step now (CloseClick key) w = closeModal key now w"
| "step now EscapeKey w = escape_key now w"
| "step now HeaderSignup w =
     openModal Choice now (track ''cta_clicked'' [(''button'', JStr ''header_signup'')] now w)"
| "step now EnterpriseCta w =
     openModal Enterprise now
       (track ''cta_clicked''
          [(''button'', JStr ''enterprise_hero''),
           (''variant'', JStr (variant_str (variant (st w))))] now w)"
| "step now CarrierCta w =
     openModal Carrier now (track ''cta_clicked'' [(''button'', JStr ''carrier_hero'')] now w)"
| "step now ChoiceEnterprise w = openModal Enterprise now (closeModal Choice now w)"
| "step now ChoiceCarrier w = openModal Carrier now (closeModal Choice now w)"
| "step now Fab w = openModal Choice now (track ''cta_clicked'' [(''button'', JStr ''fab'')] now w)"
| "step now EnterpriseSubmit w = world_of (enterprise_submit w)"
| "step now (EnterpriseComplete formData) w = enterprise_complete formData now w"
| "step now EnterpriseReset w = enterprise_reset now w"
| "step now CarrierSubmit w = world_of (carrier_submit w)"
| "step now (CarrierComplete formData) w = carrier_complete formData now w"
| "step now CarrierReset w = carrier_reset now w"
| "step now EmailSubmit w = world_of (email_submit now w)"
| "step now EmailReset w = w\<lparr>doc := email_reset (doc w)\<rparr>"
| "step now ToastHide w = w\<lparr>doc := toast_hide (doc w)\<rparr>"
| "step now BannerDismiss w = track ''banner_dismissed'' [] now w"
| "step now ActivityDismiss w = track ''activity_feed_dismissed'' [] now w"
| "step now (ScreenshotTab target) w = track ''screenshot_tab_clicked'' [(''tab'', target)] now w"
| "step now (FaqClick question) w = track ''faq_opened'' [(''question'', JStr question)] now w"
| "step now ChatOpened w = track ''chat_opened'' [] now w"
| "step now (ChatQuickAction a) w = track ''chat_quick_action'' [(''action'', a)] now w"
| "step now ChatMessage w = track ''chat_message_sent'' [] now w"
| "step now FinalEnterprise w =
     track ''cta_clicked'' [(''button'', JStr ''final_enterprise'')] now (openModal Enterprise now w)"
| "step now FinalCarrier w =
     track ''cta_clicked'' [(''button'', JStr ''final_carrier'')] now (openModal Carrier now w)"
| "step now (DomEdit f) w = w\<lparr>doc := f (doc w)\<rparr>"

text \<open>A session after page load: handler runs, each at its instant, one after the other.\<close>

definition run :: "(int \<times> action) list \<Rightarrow> world \<Rightarrow> world" where
  "run acts w = fold (\<lambda>(now, a). step now a) acts w"

section \<open>What a handler may do to the state\<close>

text \<open>
  \<open>appends_only s s'\<close>: the state \<open>s'\<close> is \<open>s\<close> with events and leads appended, none of the
  new events being a milestone event.
\<close>

definition appends_only :: "state \<Rightarrow> state \<Rightarrow> bool" where
  "appends_only s s' =
     (\<exists>es ls. s' = s\<lparr>events := events s @ es, leads := leads s @ ls\<rparr>
        \<and> list_all (\<lambda>e. \<not> is_event ''scroll_depth'' e \<and> \<not> is_event ''time_on_page'' e) es)"

text \<open>
  The milestone invariant: an event of a milestone occurs at most once, and not at all
  while the milestone is not in its set.
\<close>

definition milestones_ok :: "state \<Rightarrow> bool" where
  "milestones_ok s =
     (\<forall>m. length (filter (is_scroll_depth m) (events s)) \<le> (if m \<in> scrollDepths s then 1 else 0)
        \<and> length (filter (is_time_on_page m) (events s)) \<le> (if m \<in> timeMilestones s then 1 else 0))"

section \<open>The language of a regular expression\<close>

text \<open>
  What \<open>test\<close> computes is membership in the language of the expression. The language is the
  usual one; it is used to reason about \<open>test\<close> on all strings at once.
\<close>

inductive_set star :: "string set \<Rightarrow> string set" for L :: "string set" where
  star_empty: "[] \<in> star L"
| star_more: "u \<in> L \<Longrightarrow> v \<in> star L \<Longrightarrow> u @ v \<in> star L"

fun lang :: "rexp \<Rightarrow> string set" where
  "lang Never = {}"
| "lang Epsilon = {[]}"
| "lang (Class p) = {[c] | c. p c}"
| "lang (Alt r s) = lang r \<union> lang s"
| "lang (Cat r s) = {u @ v | u v. u \<in> lang r \<and> v \<in> lang s}"
| "lang (Star r) = star (lang r)"

section \<open>Example documents\<close>

text \<open>
  A small page to evaluate the handlers on: the enterprise form with its six fields filled
  in, the carrier form's DOT field, the email capture field, one error element, and the
  three modals, closed.
\<close>

definition ex_input :: "string \<Rightarrow> string \<Rightarrow> string \<Rightarrow> string \<Rightarrow> input" where
  "ex_input f i ty v =
     \<lparr>inp_id = i, inp_type = ty, inp_value = v, inp_default = [], inp_required = True,
      inp_minlength = None, inp_form = Some f, inp_form_input = True,
      inp_valid = False, inp_invalid = False\<rparr>"

definition ex_dom :: dom where
  "ex_dom =
     \<lparr>inputs =
        [ex_input ''enterpriseForm'' ''entName'' ''text'' ''Ada Lovelace'',
         ex_input ''enterpriseForm'' ''entEmail'' ''email'' ''ada@example.com'',
         ex_input ''enterpriseForm'' ''entCompany'' ''text'' ''Engines'',
         ex_input ''enterpriseForm'' ''entPhone'' ''tel'' ''(555) 010-0100'',
         ex_input ''enterpriseForm'' ''entFleetSize'' ''select-one'' ''11-50'',
         (ex_input ''enterpriseForm'' ''entMessage'' ''textarea'' [])\<lparr>inp_required := False\<rparr>,
         ex_input ''carrierForm'' ''carDOT'' ''text'' ''1234567890'',
         (ex_input ''emailCaptureForm'' ''quickEmail'' ''email'' ''a@b'')\<lparr>inp_form_input := False\<rparr>],
      texts = [''entNameError'' \<mapsto> [], ''enterpriseCta'' \<mapsto> ''Get Started''],
      modal_active = [Choice \<mapsto> False, Enterprise \<mapsto> False, Carrier \<mapsto> False],
      body_overflow = [],
      body_data_variant = [],
      toast_text = [],
      toast_shown = False,
      enterprise_ui = \<lparr>loading = False, disabled = False, submitted = False, success_shown = False\<rparr>,
      carrier_ui = \<lparr>loading = False, disabled = False, submitted = False, success_shown = False\<rparr>,
      email_display = ''flex'',
      email_success_shown = False\<rparr>"

definition ex_world :: world where
  "ex_world = page_load 1000 ''k3j9x2m1q'' (1 / 4) ex_dom"

text \<open>A name field that carries a \<^verbatim>\<open>minlength\<close> attribute, with a digit in the name.\<close>

definition ex_name_minlength :: input where
  "ex_name_minlength =
     (ex_input ''enterpriseForm'' ''entName'' ''text'' ''J0hn'')\<lparr>inp_minlength := Some ''2''\<rparr>"

text \<open>The carrier form's name field with \<^verbatim>\<open>minlength="2"\<close> and digits in the value.\<close>

definition ex_carrier_name :: input where
  "ex_carrier_name =
     (ex_input ''carrierForm'' ''carName'' ''text'' ''R2D2 Freight'')\<lparr>inp_minlength := Some ''2''\<rparr>"

text \<open>The example page with the name left empty, and with the carrier modal open.\<close>

definition ex_world_empty_name :: world where
  "ex_world_empty_name =
     ex_world\<lparr>doc := (doc ex_world)\<lparr>inputs := set_value ''entName'' [] (inputs (doc ex_world))\<rparr>\<rparr>"

definition ex_world_carrier_open :: world where
  "ex_world_carrier_open = openModal Carrier 2000 ex_world"

text \<open>What the enterprise form of the example page holds.\<close>

definition ex_formData :: "(string \<times> string) list" where
  "ex_formData =
     [(''name'', ''Ada Lovelace''), (''email'', ''ada@example.com''), (''company'', ''Engines''),
      (''phone'', ''(555) 010-0100''), (''fleetSize'', ''11-50''), (''message'', [])]"

text \<open>A short session on the example page: two scrolls past the first milestones, two ticks.\<close>

definition ex_acts :: "(int \<times> action) list" where
  "ex_acts = [(2000, Scroll (Fin 60)), (3000, Scroll (Fin 80)), (40000, Tick), (41000, Tick)]"

section \<open>Facts about strings and regular expressions\<close>

lemma nullable_lang: "nullable r \<longleftrightarrow> [] \<in> lang r"
  by (induction r) (auto intro: star_empty)

lemma star_step:
  assumes "x \<in> star L" and "x = c # s"
  shows "\<exists>u v. s = u @ v \<and> c # u \<in> L \<and> v \<in> star L"
  using assms
proof (induction arbitrary: s rule: star.induct)
  case star_empty
  then show ?case by simp
next
  case (star_more u v)
  show ?case
  proof (cases u)
    case Nil
    with star_more show ?thesis by simp
  next
    case (Cons a u')
    with star_more.prems have "a = c" and "s = u' @ v" by simp_all
    with star_more.hyps Cons show ?thesis by blast
  qed
qed

lemma star_cons: "c # s \<in> star L \<longleftrightarrow> (\<exists>u v. s = u @ v \<and> c # u \<in> L \<and> v \<in> star L)"
proof
  assume "c # s \<in> star L"
  then show "\<exists>u v. s = u @ v \<and> c # u \<in> L \<and> v \<in> star L"
    by (rule star_step) simp
next
  assume "\<exists>u v. s = u @ v \<and> c # u \<in> L \<and> v \<in> star L"
  then obtain u v where "s = u @ v" "c # u \<in> L" "v \<in> star L" by blast
  then show "c # s \<in> star L"
    using star_more [of "c # u" L v] by simp
qed

lemma lang_deriv: "s \<in> lang (deriv c r) \<longleftrightarrow> c # s \<in> lang r"
proof (induction r arbitrary: s)
  case (Cat r1 r2)
  show ?case
  proof (cases "nullable r1")
    case True
    then have "[] \<in> lang r1" by (simp add: nullable_lang)
    with True Cat show ?thesis
      by (auto simp: Cons_eq_append_conv)
  next
    case False
    then have "[] \<notin> lang r1" by (simp add: nullable_lang)
    with False Cat show ?thesis
      by (auto simp: Cons_eq_append_conv)
  qed
next
  case (Star r)
  then show ?case by (auto simp: star_cons)
qed auto

lemma test_lang: "test r s \<longleftrightarrow> s \<in> lang r"
  unfolding test_def
  by (induction s arbitrary: r) (simp_all add: nullable_lang lang_deriv)

lemma star_class: "s \<in> star {[c] | c. p c} \<longleftrightarrow> (\<forall>c \<in> set s. p c)"
proof (induction s)
  case Nil
  show ?case by (simp add: star_empty)
next
  case (Cons a s)
  then show ?case by (auto simp: star_cons)
qed

lemma test_dotRegex: "test dotRegex s \<longleftrightarrow> (\<forall>c \<in> set s. is_digit c)"
  by (simp add: test_lang dotRegex_def star_class)

lemma digit_not_space: "is_digit c \<Longrightarrow> \<not> is_space c"
  by (auto simp: is_digit_def is_space_def Let_def)

lemma digit_not_letter: "is_digit c \<Longrightarrow> \<not> is_letter c"
  by (auto simp: is_digit_def is_letter_def Let_def)

lemma set_dropWhile_keeps: "x \<in> set xs \<Longrightarrow> \<not> P x \<Longrightarrow> x \<in> set (dropWhile P xs)"
  by (induction xs) auto

lemma trim_keeps: "c \<in> set s \<Longrightarrow> \<not> is_space c \<Longrightarrow> c \<in> set (trim s)"
  by (simp add: trim_def set_dropWhile_keeps)

lemma dropWhile_none: "\<forall>x \<in> set xs. \<not> P x \<Longrightarrow> dropWhile P xs = xs"
  by (cases xs) auto

lemma trim_no_space: "\<forall>c \<in> set s. \<not> is_space c \<Longrightarrow> trim s = s"
  by (simp add: trim_def dropWhile_none)

lemma lang_CatI: "u \<in> lang r \<Longrightarrow> v \<in> lang s \<Longrightarrow> u @ v \<in> lang (Cat r s)"
  by (simp only: lang.simps mem_Collect_eq) (intro exI conjI, rule refl, assumption+)

lemma lang_Class_Cat: "s \<in> lang (Cat (Class p) r) \<longleftrightarrow> (\<exists>c t. s = c # t \<and> p c \<and> t \<in> lang r)"
proof
  assume "s \<in> lang (Cat (Class p) r)"
  then show "\<exists>c t. s = c # t \<and> p c \<and> t \<in> lang r" by auto
next
  assume "\<exists>c t. s = c # t \<and> p c \<and> t \<in> lang r"
  then obtain c t where s: "s = [c] @ t" and "p c" "t \<in> lang r" by auto
  then have "[c] \<in> lang (Class p)" by simp
  then show "s \<in> lang (Cat (Class p) r)"
    unfolding s using \<open>t \<in> lang r\<close> by (rule lang_CatI)
qed

lemma test_nameRegex: "test nameRegex s \<longleftrightarrow> 2 \<le> length s \<and> (\<forall>c \<in> set s. is_letter c \<or> is_space c)"
proof -
  have "test nameRegex s \<longleftrightarrow>
    (\<exists>a b t. s = a # b # t \<and> (is_letter a \<or> is_space a) \<and> (is_letter b \<or> is_space b) \<and>
       (\<forall>c \<in> set t. is_letter c \<or> is_space c))"
    unfolding test_lang nameRegex_def AtLeast2_def lang_Class_Cat
    by (auto simp: star_class)
  also have "\<dots> \<longleftrightarrow> 2 \<le> length s \<and> (\<forall>c \<in> set s. is_letter c \<or> is_space c)"
    by (cases s; cases "tl s") auto
  finally show ?thesis .
qed

lemma map_of_spread:
  "map_of (spread t src) k = (case map_of (rev src) k of Some v \<Rightarrow> Some v | None \<Rightarrow> map_of t k)"
  unfolding spread_def
proof (induction src arbitrary: t)
  case Nil
  show ?case by simp
next
  case (Cons p src)
  obtain a b where p: "p = (a, b)" by (cases p)
  show ?case
    by (simp add: p Cons update_conv' map_add_def split: option.splits)
qed

lemma map_of_rev_distinct: "distinct (map fst xs) \<Longrightarrow> map_of (rev xs) = map_of xs"
proof (induction xs)
  case Nil
  show ?case by simp
next
  case (Cons p xs)
  obtain a b where p: "p = (a, b)" by (cases p)
  from Cons.prems have "a \<notin> fst ` set xs" by (simp add: p)
  then have "map_of xs a = None" by (simp add: map_of_eq_None_iff)
  with Cons show ?case
    by (auto simp: p map_add_def fun_eq_iff split: option.splits)
qed

lemma get_prop_spread:
  "get_prop (spread t src) k =
     (case map_of (rev src) k of Some v \<Rightarrow> Some v | None \<Rightarrow> get_prop t k)"
  unfolding get_prop_def by (rule map_of_spread)

lemma events_trackEvent:
  "events (trackEvent eventName data now s) =
     events s @ [spread [(''event'', JStr eventName), (''timestamp'', JIso now),
                         (''variant'', JStr (variant_str (variant s))),
                         (''sessionId'', JStr (sessionId s))] data]"
  by (simp add: trackEvent_def)

lemma ex_world_session:
  "sessionId (st ex_world) = ''session_1000_k3j9x2m1q''"
  "variant (st ex_world) = VariantA"
  "startTime (st ex_world) = 1000"
  by (simp_all add: ex_world_def page_load_def init_state_def trackEvent_def Let_def
      generateSessionId_def string_of_int_def string_of_nat.simps assign_variant_def)

section \<open>The event tracker\<close>

text \<open>
  C10. The extra fields are spread after the session context, so for every key \<open>k\<close> of the
  extra-fields object the appended event carries the extra field's value under \<open>k\<close>, also
  when \<open>k\<close> is one of \<^verbatim>\<open>event\<close>, \<^verbatim>\<open>timestamp\<close>, \<^verbatim>\<open>variant\<close> and \<^verbatim>\<open>sessionId\<close>. Hence
  some call appends an event whose \<^verbatim>\<open>sessionId\<close> is not the session's, and some call one
  whose \<^verbatim>\<open>variant\<close> is not the session's.
\<close>

theorem trackEvent_extra_fields_override:
  assumes "distinct (map fst data)" and "get_prop data k = Some v"
  shows "(\<exists>e. events (trackEvent eventName data now s) = events s @ [e] \<and> get_prop e k = Some v)
    \<and> (\<exists>forged e. events (trackEvent eventName forged now s) = events s @ [e]
          \<and> get_prop e ''sessionId'' \<noteq> Some (JStr (sessionId s)))
    \<and> (\<exists>forged e. events (trackEvent eventName forged now s) = events s @ [e]
          \<and> get_prop e ''variant'' \<noteq> Some (JStr (variant_str (variant s))))"
proof -
  define base where "base = [(''event'', JStr eventName), (''timestamp'', JIso now),
     (''variant'', JStr (variant_str (variant s))), (''sessionId'', JStr (sessionId s))]"
  have ev: "events (trackEvent eventName d now s) = events s @ [spread base d]" for d
    by (simp add: events_trackEvent base_def)
  from assms have "map_of (rev data) k = Some v"
    by (simp only: map_of_rev_distinct get_prop_def)
  then have "get_prop (spread base data) k = Some v"
    by (simp add: get_prop_spread)
  with ev have first: "\<exists>e. events (trackEvent eventName data now s) = events s @ [e] \<and> get_prop e k = Some v"
    by (intro exI [of _ "spread base data"] conjI)
  define f1 where "f1 = [(''sessionId'', JStr (CHR ''x'' # sessionId s))]"
  have "get_prop (spread base f1) ''sessionId'' \<noteq> Some (JStr (sessionId s))"
    by (simp add: get_prop_spread f1_def)
  with ev have second: "\<exists>forged e. events (trackEvent eventName forged now s) = events s @ [e]
          \<and> get_prop e ''sessionId'' \<noteq> Some (JStr (sessionId s))"
    by (intro exI [of _ f1] exI [of _ "spread base f1"] conjI)
  define f2 where "f2 = [(''variant'', JStr ''C'')]"
  have "get_prop (spread base f2) ''variant'' \<noteq> Some (JStr (variant_str (variant s)))"
    by (cases "variant s") (simp_all add: get_prop_spread f2_def)
  with ev have third: "\<exists>forged e. events (trackEvent eventName forged now s) = events s @ [e]
          \<and> get_prop e ''variant'' \<noteq> Some (JStr (variant_str (variant s)))"
    by (intro exI [of _ f2] exI [of _ "spread base f2"] conjI)
  show ?thesis by (rule conjI [OF first conjI [OF second third]])
qed

theorem trackEvent_extra_fields_override_witness:
  "\<exists>e. events (trackEvent ''cta_clicked'' [(''sessionId'', JStr ''forged''), (''variant'', JStr ''C'')] 5
          (st ex_world)) = events (st ex_world) @ [e]
       \<and> get_prop e ''sessionId'' = Some (JStr ''forged'')
       \<and> get_prop e ''sessionId'' \<noteq> Some (JStr (sessionId (st ex_world)))"
  using trackEvent_extra_fields_override
    [of "[(''sessionId'', JStr ''forged''), (''variant'', JStr ''C'')]" "''sessionId''"
        "JStr ''forged''" "''cta_clicked''" 5 "st ex_world"]
  by (auto simp: get_prop_def ex_world_session)

section \<open>Field validation\<close>

lemma trim_literals:
  "trim ''a@b.co'' = ''a@b.co''" "trim ''a@b'' = ''a@b''" "trim ''J0hn'' = ''J0hn''"
  by (simp_all add: trim_def is_space_def)

lemma test_email_literals: "test emailRegex ''a@b.co''" "\<not> test emailRegex ''a@b''"
  by (simp_all add: test_def emailRegex_def Plus_def is_space_def)

lemma name_with_digit_fails:
  assumes "c \<in> set v" and "is_digit c"
  shows "trim v \<noteq> []" and "\<not> test nameRegex (trim v)"
proof -
  from assms have c: "c \<in> set (trim v)" by (simp add: trim_keeps digit_not_space)
  then show "trim v \<noteq> []" by auto
  from c assms(2) show "\<not> test nameRegex (trim v)"
    by (auto simp: test_nameRegex dest: digit_not_letter digit_not_space)
qed

lemma validate_required_empty:
  "inp_required x \<Longrightarrow> trim (inp_value x) = [] \<Longrightarrow> validate x = (False, ''This field is required'')"
  by (simp add: validate_def)

lemma validate_email_ok:
  assumes "inp_type x = ''email''" "inp_value x = ''a@b.co''" "inp_minlength x = None"
    "\<not> str_includes (inp_id x) ''Name''" "\<not> str_includes (inp_id x) ''DOT''"
  shows "validate x = (True, [])"
  using assms by (simp add: validate_def trim_literals test_email_literals)

lemma validate_email_bad:
  assumes "inp_type x = ''email''" "inp_value x = ''a@b''"
  shows "validate x = (False, ''Please enter a valid email'')"
  using assms by (simp add: validate_def trim_literals test_email_literals)

lemma validate_name_digit:
  assumes "str_includes (inp_id x) ''Name''" "inp_minlength x = None" "c \<in> set (inp_value x)" "is_digit c"
  shows "\<not> fst (validate x)"
  using assms(1,2) name_with_digit_fails [OF assms(3,4)]
  by (simp add: validate_def Let_def)

lemma validate_dot_digits:
  assumes "str_includes (inp_id x) ''DOT''" "\<not> str_includes (inp_id x) ''Name''"
    "inp_type x \<noteq> ''email''" "inp_minlength x = None"
    "length (inp_value x) = 10" "\<forall>c \<in> set (inp_value x). is_digit c"
  shows "validate x = (True, [])"
proof -
  from assms(6) have "trim (inp_value x) = inp_value x"
    by (simp add: trim_no_space digit_not_space)
  moreover from assms(5) have "inp_value x \<noteq> []" by auto
  moreover from assms(6) have "test dotRegex (inp_value x)" by (simp add: test_dotRegex)
  ultimately show ?thesis using assms(1-4) by (simp add: validate_def)
qed

text \<open>
  C3. The rules are not all checked in turn: a field that has a \<^verbatim>\<open>minlength\<close> attribute
  takes the third branch of the chain whether or not its value is long enough, and the name
  and DOT rules are then never reached. The name field \<^verbatim>\<open>entName\<close> with
  \<^verbatim>\<open>minlength="2"\<close> and the value \<^verbatim>\<open>J0hn\<close> is valid with an empty message, although the name
  expression rejects the value; without the attribute the same value is rejected.
\<close>

theorem validate_minlength_skips_name_rule:
  "validate ex_name_minlength = (True, [])
   \<and> str_includes (inp_id ex_name_minlength) ''Name''
   \<and> trim (inp_value ex_name_minlength) = ''J0hn''
   \<and> \<not> test nameRegex ''J0hn''
   \<and> validate (ex_name_minlength\<lparr>inp_minlength := None\<rparr>)
       = (False, ''Please enter a valid name (letters only)'')"
proof -
  have 1: "validate ex_name_minlength = (True, [])"
    by (simp add: validate_def ex_name_minlength_def ex_input_def trim_literals
        parseInt_def parse_digits_def digit_value_def is_space_def)
  have 2: "str_includes (inp_id ex_name_minlength) ''Name''"
    by (simp add: ex_name_minlength_def ex_input_def)
  have 3: "trim (inp_value ex_name_minlength) = ''J0hn''"
    by (simp add: ex_name_minlength_def ex_input_def trim_literals)
  have 4: "\<not> test nameRegex ''J0hn''"
    by (simp add: test_nameRegex is_letter_def is_space_def)
  have 5: "validate (ex_name_minlength\<lparr>inp_minlength := None\<rparr>)
       = (False, ''Please enter a valid name (letters only)'')"
    using 4 by (simp add: validate_def ex_name_minlength_def ex_input_def trim_literals)
  from 1 2 3 4 5 show ?thesis by (intro conjI)
qed

text \<open>
  The validation decision on the five examples, for every field that carries the rule in
  question and no \<^verbatim>\<open>minlength\<close> attribute: a blank value on a required field is rejected;
  \<^verbatim>\<open>a@b.co\<close> is accepted on an email field with no name or DOT rule; \<^verbatim>\<open>a@b\<close> is rejected
  on every email field; a value with a digit is rejected on a name field; ten digits are
  accepted on a DOT field that is not an email or name field.
\<close>

lemma validate_examples:
  "(inp_required x \<and> trim (inp_value x) = [] \<longrightarrow> validate x = (False, ''This field is required''))
   \<and> (inp_type x = ''email'' \<and> inp_value x = ''a@b.co'' \<and> inp_minlength x = None
        \<and> \<not> str_includes (inp_id x) ''Name'' \<and> \<not> str_includes (inp_id x) ''DOT''
       \<longrightarrow> validate x = (True, []))
   \<and> (inp_type x = ''email'' \<and> inp_value x = ''a@b''
       \<longrightarrow> validate x = (False, ''Please enter a valid email''))
   \<and> (str_includes (inp_id x) ''Name'' \<and> inp_minlength x = None
        \<and> (\<exists>c \<in> set (inp_value x). is_digit c)
       \<longrightarrow> \<not> fst (validate x))
   \<and> (str_includes (inp_id x) ''DOT'' \<and> \<not> str_includes (inp_id x) ''Name''
        \<and> inp_type x \<noteq> ''email'' \<and> inp_minlength x = None
        \<and> length (inp_value x) = 10 \<and> (\<forall>c \<in> set (inp_value x). is_digit c)
       \<longrightarrow> validate x = (True, []))"
  using validate_required_empty [of x] validate_email_ok [of x] validate_email_bad [of x]
    validate_name_digit [of x] validate_dot_digits [of x]
  by blast

lemma validate_examples_instances:
  "validate (ex_input ''enterpriseForm'' ''entCompany'' ''text'' ''  '') = (False, ''This field is required'')
   \<and> validate (ex_input ''enterpriseForm'' ''entEmail'' ''email'' ''a@b.co'') = (True, [])
   \<and> validate (ex_input ''emailCaptureForm'' ''quickEmail'' ''email'' ''a@b'')
       = (False, ''Please enter a valid email'')
   \<and> \<not> fst (validate (ex_input ''enterpriseForm'' ''entName'' ''text'' ''J0hn''))
   \<and> validate (ex_input ''carrierForm'' ''carDOT'' ''text'' ''1234567890'') = (True, [])"
proof -
  have 1: "validate (ex_input ''enterpriseForm'' ''entCompany'' ''text'' ''  '') = (False, ''This field is required'')"
    using validate_examples [of "ex_input ''enterpriseForm'' ''entCompany'' ''text'' ''  ''"]
    by (simp add: ex_input_def trim_def is_space_def)
  have 2: "validate (ex_input ''enterpriseForm'' ''entEmail'' ''email'' ''a@b.co'') = (True, [])"
    using validate_examples [of "ex_input ''enterpriseForm'' ''entEmail'' ''email'' ''a@b.co''"]
    by (simp add: ex_input_def)
  have 3: "validate (ex_input ''emailCaptureForm'' ''quickEmail'' ''email'' ''a@b'')
       = (False, ''Please enter a valid email'')"
    using validate_examples [of "ex_input ''emailCaptureForm'' ''quickEmail'' ''email'' ''a@b''"]
    by (simp add: ex_input_def)
  have 4: "\<not> fst (validate (ex_input ''enterpriseForm'' ''entName'' ''text'' ''J0hn''))"
    using validate_examples [of "ex_input ''enterpriseForm'' ''entName'' ''text'' ''J0hn''"]
    by (simp add: ex_input_def is_digit_def)
  have 5: "validate (ex_input ''carrierForm'' ''carDOT'' ''text'' ''1234567890'') = (True, [])"
    using validate_examples [of "ex_input ''carrierForm'' ''carDOT'' ''text'' ''1234567890''"]
    by (simp add: ex_input_def is_digit_def)
  from 1 2 3 4 5 show ?thesis by (intro conjI)
qed

lemma trim_r2d2: "trim ''R2D2 Freight'' = ''R2D2 Freight''"
  by (simp add: trim_def is_space_def)

text \<open>
  C4. Four of the five examples come out as stated: a blank value on a required field is
  rejected, \<^verbatim>\<open>a@b.co\<close> is accepted and \<^verbatim>\<open>a@b\<close> rejected on an email field, and ten digits are
  accepted on the DOT field. A digit in a name is rejected only on a name field without a
  \<^verbatim>\<open>minlength\<close> attribute: on the carrier form's name field with \<^verbatim>\<open>minlength="2"\<close> the value
  \<^verbatim>\<open>R2D2 Freight\<close> is valid with an empty message, because the third branch of the chain is
  taken and the name rule is never reached.
\<close>

theorem validate_accepts_digits_in_name_with_minlength:
  "str_includes (inp_id ex_carrier_name) ''Name''
   \<and> CHR ''2'' \<in> set (inp_value ex_carrier_name) \<and> is_digit (CHR ''2'')
   \<and> \<not> test nameRegex (trim (inp_value ex_carrier_name))
   \<and> validate ex_carrier_name = (True, [])
   \<and> validate (ex_carrier_name\<lparr>inp_minlength := None\<rparr>)
       = (False, ''Please enter a valid name (letters only)'')
   \<and> validate (ex_input ''enterpriseForm'' ''entCompany'' ''text'' ''  '') = (False, ''This field is required'')
   \<and> validate (ex_input ''enterpriseForm'' ''entEmail'' ''email'' ''a@b.co'') = (True, [])
   \<and> validate (ex_input ''emailCaptureForm'' ''quickEmail'' ''email'' ''a@b'')
       = (False, ''Please enter a valid email'')
   \<and> validate (ex_input ''carrierForm'' ''carDOT'' ''text'' ''1234567890'') = (True, [])"
proof -
  have 1: "str_includes (inp_id ex_carrier_name) ''Name''"
    by (simp add: ex_carrier_name_def ex_input_def)
  have 2: "CHR ''2'' \<in> set (inp_value ex_carrier_name)"
    by (simp add: ex_carrier_name_def ex_input_def)
  have 3: "is_digit (CHR ''2'')" by (simp add: is_digit_def)
  have 4: "\<not> test nameRegex (trim (inp_value ex_carrier_name))"
    by (rule name_with_digit_fails(2) [OF 2 3])
  have 5: "validate ex_carrier_name = (True, [])"
    by (simp add: validate_def ex_carrier_name_def ex_input_def trim_r2d2
        parseInt_def parse_digits_def digit_value_def is_space_def)
  have 6: "validate (ex_carrier_name\<lparr>inp_minlength := None\<rparr>)
       = (False, ''Please enter a valid name (letters only)'')"
    using 4 by (simp add: validate_def ex_carrier_name_def ex_input_def trim_r2d2)
  have 7: "validate (ex_input ''enterpriseForm'' ''entCompany'' ''text'' ''  '') = (False, ''This field is required'')"
    by (rule validate_required_empty) (simp_all add: ex_input_def trim_def is_space_def)
  have 8: "validate (ex_input ''enterpriseForm'' ''entEmail'' ''email'' ''a@b.co'') = (True, [])"
    by (rule validate_email_ok) (simp_all add: ex_input_def)
  have 9: "validate (ex_input ''emailCaptureForm'' ''quickEmail'' ''email'' ''a@b'')
       = (False, ''Please enter a valid email'')"
    by (rule validate_email_bad) (simp_all add: ex_input_def)
  have 10: "validate (ex_input ''carrierForm'' ''carDOT'' ''text'' ''1234567890'') = (True, [])"
    by (rule validate_dot_digits) (simp_all add: ex_input_def is_digit_def)
  show ?thesis
    by (rule conjI [OF 1 conjI [OF 2 conjI [OF 3 conjI [OF 4 conjI [OF 5 conjI [OF 6
          conjI [OF 7 conjI [OF 8 conjI [OF 9 10]]]]]]]]])
qed

lemma validate_cong:
  assumes "inp_value x = inp_value y" "inp_type x = inp_type y" "inp_id x = inp_id y"
    "inp_required x = inp_required y" "inp_minlength x = inp_minlength y"
  shows "validate x = validate y"
  unfolding validate_def assms ..

lemma validateField_result: "fst (validateField x tx) = fst (validate x)"
  by (simp add: validateField_def Let_def split: prod.splits)

lemma validateField_texts:
  "snd (snd (validateField x tx)) =
     (if tx (inp_id x @ ''Error'') = None then tx else tx(inp_id x @ ''Error'' \<mapsto> snd (validate x)))"
  by (simp add: validateField_def Let_def split: prod.splits)

lemma validateField_input:
  "fst (snd (validateField x tx)) =
     x\<lparr>inp_valid := fst (validate x) \<and> trim (inp_value x) \<noteq> [], inp_invalid := \<not> fst (validate x)\<rparr>"
  by (cases "fst (validate x)") (auto simp: validateField_def Let_def split: prod.splits)

text \<open>
  C7. The decision of \<open>validateField\<close> and its message are a function of the value of the
  field and of its rule attributes (type, id, \<^verbatim>\<open>required\<close>, \<^verbatim>\<open>minlength\<close>): two fields that
  agree on these get the same result and message, whatever else differs, and the document's
  texts have no influence on the result. The function has no access to \<^verbatim>\<open>state\<close>. It is not
  free of effects on the document: it writes the message into the element \<^verbatim>\<open>idError\<close> when
  that exists, and it sets the classes \<^verbatim>\<open>valid\<close> and \<^verbatim>\<open>invalid\<close> of the field; nothing else
  changes.
\<close>

theorem validateField_function_of_value_and_rules:
  assumes "inp_value x = inp_value y" "inp_type x = inp_type y" "inp_id x = inp_id y"
    "inp_required x = inp_required y" "inp_minlength x = inp_minlength y"
  shows "validate x = validate y
    \<and> fst (validateField x tx) = fst (validate x)
    \<and> fst (validateField y tx') = fst (validate x)
    \<and> snd (snd (validateField x tx)) =
        (if tx (inp_id x @ ''Error'') = None then tx
         else tx(inp_id x @ ''Error'' \<mapsto> snd (validate x)))
    \<and> fst (snd (validateField x tx)) =
        x\<lparr>inp_valid := fst (validate x) \<and> trim (inp_value x) \<noteq> [],
          inp_invalid := \<not> fst (validate x)\<rparr>"
proof -
  have eq: "validate x = validate y" using assms by (rule validate_cong)
  have "fst (validateField y tx') = fst (validate x)"
    by (simp only: validateField_result eq)
  with eq show ?thesis
    by (simp only: validateField_result validateField_texts validateField_input simp_thms)
qed

theorem validateField_function_of_value_and_rules_witness:
  "validate (ex_input ''enterpriseForm'' ''entName'' ''text'' ''J0hn'')
     = validate ((ex_input ''carrierForm'' ''entName'' ''text'' ''J0hn'')\<lparr>inp_invalid := True\<rparr>)
   \<and> fst (validateField (ex_input ''enterpriseForm'' ''entName'' ''text'' ''J0hn'') (texts ex_dom))
     = fst (validateField ((ex_input ''carrierForm'' ''entName'' ''text'' ''J0hn'')\<lparr>inp_invalid := True\<rparr>)
         Map.empty)"
  using validateField_function_of_value_and_rules
    [of "ex_input ''enterpriseForm'' ''entName'' ''text'' ''J0hn''"
        "(ex_input ''carrierForm'' ''entName'' ''text'' ''J0hn'')\<lparr>inp_invalid := True\<rparr>"
        "texts ex_dom" Map.empty]
  by (simp add: ex_input_def)

text \<open>
  C7, as it is stated, fails on the code: validation has effects on the document.
  Validating the empty required name field of the example page changes the document: the
  field gets the class \<^verbatim>\<open>invalid\<close> and the element \<^verbatim>\<open>entNameError\<close> gets the message.
\<close>

theorem validateField_writes_document:
  "\<not> inp_invalid (ex_input ''enterpriseForm'' ''entName'' ''text'' [])
   \<and> inp_invalid (fst (snd (validateField (ex_input ''enterpriseForm'' ''entName'' ''text'' []) (texts ex_dom))))
   \<and> texts ex_dom ''entNameError'' = Some []
   \<and> snd (snd (validateField (ex_input ''enterpriseForm'' ''entName'' ''text'' []) (texts ex_dom))) ''entNameError''
       = Some ''This field is required''
   \<and> snd (validateField (ex_input ''enterpriseForm'' ''entName'' ''text'' []) (texts ex_dom))
       \<noteq> (ex_input ''enterpriseForm'' ''entName'' ''text'' [], texts ex_dom)"
proof -
  have v: "validate (ex_input ''enterpriseForm'' ''entName'' ''text'' []) = (False, ''This field is required'')"
    by (simp add: validate_def ex_input_def trim_def)
  have 1: "\<not> inp_invalid (ex_input ''enterpriseForm'' ''entName'' ''text'' [])"
    by (simp add: ex_input_def)
  have 2: "inp_invalid (fst (snd (validateField (ex_input ''enterpriseForm'' ''entName'' ''text'' []) (texts ex_dom))))"
    by (simp add: validateField_input v)
  have 3: "texts ex_dom ''entNameError'' = Some []"
    by (simp add: ex_dom_def)
  have 4: "snd (snd (validateField (ex_input ''enterpriseForm'' ''entName'' ''text'' []) (texts ex_dom))) ''entNameError''
       = Some ''This field is required''"
    by (simp add: validateField_texts v 3) (simp add: ex_input_def)
  from 1 2 have 5: "snd (validateField (ex_input ''enterpriseForm'' ''entName'' ''text'' []) (texts ex_dom))
       \<noteq> (ex_input ''enterpriseForm'' ''entName'' ''text'' [], texts ex_dom)"
    by (metis fst_conv)
  from 1 2 3 4 5 show ?thesis by (intro conjI)
qed

section \<open>Modals\<close>

lemma ex_world_doc: "doc ex_world = ex_dom\<lparr>body_data_variant := ''A''\<rparr>"
  by (simp add: ex_world_def page_load_def init_state_def Let_def assign_variant_def)

lemma ex_world_carrier_open_doc:
  "doc ex_world_carrier_open =
     ex_dom\<lparr>body_data_variant := ''A'',
            modal_active := [Choice \<mapsto> False, Enterprise \<mapsto> False, Carrier \<mapsto> True],
            body_overflow := ''hidden''\<rparr>"
  by (simp add: ex_world_carrier_open_def openModal_def ex_world_doc track_def ex_dom_def)

lemma closeModal_present:
  assumes "modal_active (doc w) k = Some b"
  shows "closeModal k now w =
     w\<lparr>st := (st w)\<lparr>events := events (st w) @
           [spread [(''event'', JStr ''modal_closed''), (''timestamp'', JIso now),
                    (''variant'', JStr (variant_str (variant (st w)))),
                    (''sessionId'', JStr (sessionId (st w)))]
                   [(''modal'', JStr (modal_key k))]]\<rparr>,
       doc := (doc w)\<lparr>modal_active := (modal_active (doc w))(k \<mapsto> False), body_overflow := []\<rparr>\<rparr>"
  using assms by (simp add: closeModal_def track_def trackEvent_def)

lemma closeModal_absent: "modal_active (doc w) k = None \<Longrightarrow> closeModal k now w = w"
  by (simp add: closeModal_def)

lemma closeModal_closed_eq:
  assumes "modal_active (doc w) k = Some False"
  shows "closeModal k now w =
     w\<lparr>st := (st w)\<lparr>events := events (st w) @
           [spread [(''event'', JStr ''modal_closed''), (''timestamp'', JIso now),
                    (''variant'', JStr (variant_str (variant (st w)))),
                    (''sessionId'', JStr (sessionId (st w)))]
                   [(''modal'', JStr (modal_key k))]]\<rparr>,
       doc := (doc w)\<lparr>body_overflow := []\<rparr>\<rparr>"
proof -
  from assms have "(modal_active (doc w))(k \<mapsto> False) = modal_active (doc w)"
    by (simp add: map_upd_triv)
  then show ?thesis by (simp add: closeModal_present [OF assms])
qed

lemma modal_closed_event:
  "is_event ''modal_closed'' (spread [(''event'', JStr ''modal_closed''), (''timestamp'', JIso now),
                    (''variant'', JStr v), (''sessionId'', JStr i)] [(''modal'', JStr m)])"
  "get_prop (spread [(''event'', JStr ''modal_closed''), (''timestamp'', JIso now),
                    (''variant'', JStr v), (''sessionId'', JStr i)] [(''modal'', JStr m)]) ''modal''
     = Some (JStr m)"
  by (simp_all add: is_event_def get_prop_spread) (simp add: get_prop_def)

text \<open>
  C6. Closing a modal that exists and is already closed appends exactly one
  \<^verbatim>\<open>modal_closed\<close> event for that modal and sets \<^verbatim>\<open>document.body.style.overflow\<close> to the
  empty string; the leads, the events recorded before, the rest of \<^verbatim>\<open>state\<close> and the rest of
  the document (every modal's visibility among it) stay as they are. When the overflow style
  is already empty the document does not change at all, and the modal is closed afterwards
  as before, so closing again does the same.
\<close>

theorem closeModal_already_closed:
  assumes "modal_active (doc w) k = Some False"
  shows "(\<exists>e. closeModal k now w =
           w\<lparr>st := (st w)\<lparr>events := events (st w) @ [e]\<rparr>, doc := (doc w)\<lparr>body_overflow := []\<rparr>\<rparr>
         \<and> is_event ''modal_closed'' e \<and> get_prop e ''modal'' = Some (JStr (modal_key k)))
       \<and> (\<exists>e e'. closeModal k now' (closeModal k now w) =
           w\<lparr>st := (st w)\<lparr>events := events (st w) @ [e, e']\<rparr>, doc := (doc w)\<lparr>body_overflow := []\<rparr>\<rparr>
         \<and> is_event ''modal_closed'' e' \<and> get_prop e' ''modal'' = Some (JStr (modal_key k)))"
proof -
  let ?w1 = "closeModal k now w"
  have one: "\<exists>e. ?w1 =
           w\<lparr>st := (st w)\<lparr>events := events (st w) @ [e]\<rparr>, doc := (doc w)\<lparr>body_overflow := []\<rparr>\<rparr>
         \<and> is_event ''modal_closed'' e \<and> get_prop e ''modal'' = Some (JStr (modal_key k))"
    by (intro exI conjI, rule closeModal_closed_eq [OF assms], rule modal_closed_event,
        rule modal_closed_event)
  have closed: "modal_active (doc ?w1) k = Some False"
    using assms by (simp add: closeModal_closed_eq [OF assms])
  have "closeModal k now' ?w1 =
      ?w1\<lparr>st := (st ?w1)\<lparr>events := events (st ?w1) @
           [spread [(''event'', JStr ''modal_closed''), (''timestamp'', JIso now'),
                    (''variant'', JStr (variant_str (variant (st ?w1)))),
                    (''sessionId'', JStr (sessionId (st ?w1)))]
                   [(''modal'', JStr (modal_key k))]]\<rparr>,
       doc := (doc ?w1)\<lparr>body_overflow := []\<rparr>\<rparr>"
    by (rule closeModal_closed_eq [OF closed])
  then have two: "\<exists>e e'. closeModal k now' ?w1 =
           w\<lparr>st := (st w)\<lparr>events := events (st w) @ [e, e']\<rparr>, doc := (doc w)\<lparr>body_overflow := []\<rparr>\<rparr>
         \<and> is_event ''modal_closed'' e' \<and> get_prop e' ''modal'' = Some (JStr (modal_key k))"
    apply (simp only: closeModal_closed_eq [OF assms])
    apply (intro exI conjI)
      prefer 2 apply (rule modal_closed_event)
     prefer 2 apply (rule modal_closed_event)
    apply simp
    done
  from one two show ?thesis by (rule conjI)
qed

theorem closeModal_already_closed_witness:
  "\<exists>e. closeModal Enterprise 3000 ex_world =
           ex_world\<lparr>st := (st ex_world)\<lparr>events := events (st ex_world) @ [e]\<rparr>,
                    doc := (doc ex_world)\<lparr>body_overflow := []\<rparr>\<rparr>
         \<and> is_event ''modal_closed'' e \<and> get_prop e ''modal'' = Some (JStr ''enterprise'')"
  using closeModal_already_closed [of ex_world Enterprise 3000]
  by (simp add: ex_world_doc ex_dom_def)

text \<open>
  C6, as it is stated, fails on the code: closing a closed modal has one more effect.
  With the carrier modal open, closing the enterprise modal, which is closed, releases the
  scroll lock of the page: the document changes beyond the event.
\<close>

theorem closeModal_already_closed_resets_overflow:
  "modal_active (doc ex_world_carrier_open) Enterprise = Some False
   \<and> modal_active (doc ex_world_carrier_open) Carrier = Some True
   \<and> body_overflow (doc ex_world_carrier_open) = ''hidden''
   \<and> body_overflow (doc (closeModal Enterprise 3000 ex_world_carrier_open)) = []
   \<and> doc (closeModal Enterprise 3000 ex_world_carrier_open) \<noteq> doc ex_world_carrier_open"
proof -
  have 1: "modal_active (doc ex_world_carrier_open) Enterprise = Some False"
    by (simp add: ex_world_carrier_open_doc)
  have 2: "modal_active (doc ex_world_carrier_open) Carrier = Some True"
    by (simp add: ex_world_carrier_open_doc)
  have 3: "body_overflow (doc ex_world_carrier_open) = ''hidden''"
    by (simp add: ex_world_carrier_open_doc)
  have 4: "body_overflow (doc (closeModal Enterprise 3000 ex_world_carrier_open)) = []"
    by (simp add: closeModal_present [OF 1])
  from 3 4 have 5: "doc (closeModal Enterprise 3000 ex_world_carrier_open) \<noteq> doc ex_world_carrier_open"
    by auto
  from 1 2 3 4 5 show ?thesis by (intro conjI)
qed

section \<open>Countdown\<close>

lemma countdown_last_second: "countdown_text endTime (endTime - 1000) = ''0d 0h 0m 1s''"
  apply (simp add: countdown_text_def Let_def)
  apply (simp add: string_of_int_def)
  apply (simp add: string_of_nat.simps)
  done

text \<open>
  C8. At every tick at or after the target instant the countdown text is \<^verbatim>\<open>Expired\<close>, and
  at the tick one second before it the text is \<^verbatim>\<open>0d 0h 0m 1s\<close>; when the element exists,
  that text is what \<open>updateCountdown\<close> writes into it.
\<close>

theorem countdown_expired_and_last_second:
  "(endTime \<le> now \<longrightarrow> countdown_text endTime now = ''Expired'')
   \<and> (now = endTime - 1000 \<longrightarrow> countdown_text endTime now = ''0d 0h 0m 1s'')
   \<and> (texts d ''countdown'' \<noteq> None \<longrightarrow>
        texts (updateCountdown endTime now d) ''countdown'' = Some (countdown_text endTime now))"
proof (intro conjI impI)
  assume "endTime \<le> now"
  then show "countdown_text endTime now = ''Expired''"
    by (simp add: countdown_text_def)
next
  assume "now = endTime - 1000"
  then show "countdown_text endTime now = ''0d 0h 0m 1s''"
    by (simp only: countdown_last_second)
next
  assume "texts d ''countdown'' \<noteq> None"
  then show "texts (updateCountdown endTime now d) ''countdown'' = Some (countdown_text endTime now)"
    by (simp add: updateCountdown_def)
qed

theorem countdown_expired_and_last_second_witness:
  "countdown_text (countdown_end 0) (countdown_end 0) = ''Expired''
   \<and> countdown_text (countdown_end 0) (countdown_end 0 + 5) = ''Expired''
   \<and> countdown_text (countdown_end 0) (countdown_end 0 - 1000) = ''0d 0h 0m 1s''
   \<and> texts (updateCountdown (countdown_end 0) (countdown_end 0)
              (ex_dom\<lparr>texts := [''countdown'' \<mapsto> []]\<rparr>)) ''countdown'' = Some ''Expired''"
proof -
  have 1: "countdown_text (countdown_end 0) (countdown_end 0) = ''Expired''"
    using countdown_expired_and_last_second [of "countdown_end 0" "countdown_end 0"]
    by (simp add: countdown_end_def)
  have 2: "countdown_text (countdown_end 0) (countdown_end 0 + 5) = ''Expired''"
    using countdown_expired_and_last_second [of "countdown_end 0" "countdown_end 0 + 5"]
    by (simp add: countdown_end_def)
  have 3: "countdown_text (countdown_end 0) (countdown_end 0 - 1000) = ''0d 0h 0m 1s''"
    using countdown_expired_and_last_second [of "countdown_end 0" "countdown_end 0 - 1000"]
    by (simp add: countdown_end_def)
  have 4: "texts (updateCountdown (countdown_end 0) (countdown_end 0)
              (ex_dom\<lparr>texts := [''countdown'' \<mapsto> []]\<rparr>)) ''countdown'' = Some ''Expired''"
    using countdown_expired_and_last_second [of "countdown_end 0" "countdown_end 0"
      "ex_dom\<lparr>texts := [''countdown'' \<mapsto> []]\<rparr>"]
    by (simp add: countdown_end_def)
  from 1 2 3 4 show ?thesis by (intro conjI)
qed

lemma countdown_full: "countdown_text (countdown_end 0) 0 = ''6d 23h 45m 12s''"
  apply (simp add: countdown_text_def countdown_end_def Let_def)
  apply (simp add: string_of_int_def)
  apply (simp add: string_of_nat.simps)
  done

section \<open>Form submission\<close>

lemma validateField_eq: "validateField x tx = (fst (validate x), marked x, with_message x tx)"
  by (simp add: prod_eq_iff validateField_result validateField_input validateField_texts
      marked_def with_message_def)

lemma validate_inputs_eq:
  "validate_inputs sel xs tx =
     ((\<forall>x \<in> set xs. sel x \<longrightarrow> fst (validate x)),
      map (\<lambda>x. if sel x then marked x else x) xs,
      fold (\<lambda>x t. if sel x then with_message x t else t) xs tx)"
  by (induction xs arbitrary: tx) (auto simp: validateField_eq)

lemma marked_fields [simp]:
  "inp_id (marked x) = inp_id x" "inp_value (marked x) = inp_value x"
  "inp_type (marked x) = inp_type x" "inp_required (marked x) = inp_required x"
  "inp_minlength (marked x) = inp_minlength x" "inp_form (marked x) = inp_form x"
  "inp_form_input (marked x) = inp_form_input x" "inp_default (marked x) = inp_default x"
  by (simp_all add: marked_def)

lemma find_value_marked:
  "map_option inp_value (find (\<lambda>x. inp_id x = i) (map (\<lambda>x. if sel x then marked x else x) xs)) =
   map_option inp_value (find (\<lambda>x. inp_id x = i) xs)"
  by (induction xs) auto

lemma field_value_marked:
  "inputs d' = map (\<lambda>x. if sel x then marked x else x) (inputs d) \<Longrightarrow> field_value d' i = field_value d i"
  by (simp add: field_value_def find_value_marked)

lemma collect_marked:
  "inputs d' = map (\<lambda>x. if sel x then marked x else x) (inputs d) \<Longrightarrow> collect d' fs = collect d fs"
  by (induction fs) (auto simp: field_value_marked [of d' sel d] split: option.splits)

lemma with_message_elsewhere:
  "k \<noteq> inp_id x @ ''Error'' \<Longrightarrow> with_message x tx k = tx k"
  by (simp add: with_message_def)

lemma fold_with_message_elsewhere:
  "\<forall>x \<in> set xs. k \<noteq> inp_id x @ ''Error'' \<Longrightarrow>
     fold (\<lambda>x t. if sel x then with_message x t else t) xs tx k = tx k"
  by (induction xs arbitrary: tx) (simp_all add: with_message_elsewhere)

lemma strip_marked:
  "map (\<lambda>x. x\<lparr>inp_valid := False, inp_invalid := False\<rparr>) (map (\<lambda>x. if sel x then marked x else x) xs)
     = map (\<lambda>x. x\<lparr>inp_valid := False, inp_invalid := False\<rparr>) xs"
  by (induction xs) (simp_all add: marked_def)

lemma enterprise_submit_blocked:
  assumes "\<not> (\<forall>x \<in> set (inputs (doc w)). required_in ''enterpriseForm'' x \<longrightarrow> fst (validate x))"
  shows "enterprise_submit w =
     Blocked (w\<lparr>doc := (doc w)
        \<lparr>inputs := map (\<lambda>x. if required_in ''enterpriseForm'' x then marked x else x) (inputs (doc w)),
         texts := fold (\<lambda>x t. if required_in ''enterpriseForm'' x then with_message x t else t)
                    (inputs (doc w)) (texts (doc w)),
         toast_text := ''Please fill in all required fields correctly'',
         toast_shown := True\<rparr>\<rparr>)"
  using assms by (simp add: enterprise_submit_def validate_inputs_eq showToast_def Let_def)

lemma enterprise_submit_pending:
  assumes "\<forall>x \<in> set (inputs (doc w)). required_in ''enterpriseForm'' x \<longrightarrow> fst (validate x)"
    and "collect (doc w) enterprise_fields = Some formData"
  shows "enterprise_submit w =
     Pending (w\<lparr>doc := (doc w)
        \<lparr>inputs := map (\<lambda>x. if required_in ''enterpriseForm'' x then marked x else x) (inputs (doc w)),
         texts := fold (\<lambda>x t. if required_in ''enterpriseForm'' x then with_message x t else t)
                    (inputs (doc w)) (texts (doc w)),
         enterprise_ui := (enterprise_ui (doc w))\<lparr>loading := True, disabled := True\<rparr>\<rparr>\<rparr>) formData"
proof -
  let ?d2 = "(doc w)
        \<lparr>inputs := map (\<lambda>x. if required_in ''enterpriseForm'' x then marked x else x) (inputs (doc w)),
         texts := fold (\<lambda>x t. if required_in ''enterpriseForm'' x then with_message x t else t)
                    (inputs (doc w)) (texts (doc w)),
         enterprise_ui := (enterprise_ui (doc w))\<lparr>loading := True, disabled := True\<rparr>\<rparr>"
  have "collect ?d2 enterprise_fields = collect (doc w) enterprise_fields"
    by (rule collect_marked [where sel = "required_in ''enterpriseForm''"]) simp
  with assms show ?thesis
    by (simp add: enterprise_submit_def validate_inputs_eq Let_def)
qed

lemma carrier_submit_blocked:
  assumes "\<not> (\<forall>x \<in> set (inputs (doc w)). required_in ''carrierForm'' x \<longrightarrow> fst (validate x))"
  shows "carrier_submit w =
     Blocked (w\<lparr>doc := (doc w)
        \<lparr>inputs := map (\<lambda>x. if required_in ''carrierForm'' x then marked x else x) (inputs (doc w)),
         texts := fold (\<lambda>x t. if required_in ''carrierForm'' x then with_message x t else t)
                    (inputs (doc w)) (texts (doc w)),
         toast_text := ''Please fill in all required fields correctly'',
         toast_shown := True\<rparr>\<rparr>)"
  using assms by (simp add: carrier_submit_def validate_inputs_eq showToast_def Let_def)

lemma carrier_submit_pending:
  assumes "\<forall>x \<in> set (inputs (doc w)). required_in ''carrierForm'' x \<longrightarrow> fst (validate x)"
    and "collect (doc w) carrier_fields = Some formData"
  shows "carrier_submit w =
     Pending (w\<lparr>doc := (doc w)
        \<lparr>inputs := map (\<lambda>x. if required_in ''carrierForm'' x then marked x else x) (inputs (doc w)),
         texts := fold (\<lambda>x t. if required_in ''carrierForm'' x then with_message x t else t)
                    (inputs (doc w)) (texts (doc w)),
         carrier_ui := (carrier_ui (doc w))\<lparr>loading := True, disabled := True\<rparr>\<rparr>\<rparr>) formData"
proof -
  let ?d2 = "(doc w)
        \<lparr>inputs := map (\<lambda>x. if required_in ''carrierForm'' x then marked x else x) (inputs (doc w)),
         texts := fold (\<lambda>x t. if required_in ''carrierForm'' x then with_message x t else t)
                    (inputs (doc w)) (texts (doc w)),
         carrier_ui := (carrier_ui (doc w))\<lparr>loading := True, disabled := True\<rparr>\<rparr>"
  have "collect ?d2 carrier_fields = collect (doc w) carrier_fields"
    by (rule collect_marked [where sel = "required_in ''carrierForm''"]) simp
  with assms show ?thesis
    by (simp add: carrier_submit_def validate_inputs_eq Let_def)
qed

lemma email_submit_blocked:
  assumes "field_value (doc w) ''quickEmail'' = Some v" and "\<not> test emailRegex (trim v)"
  shows "email_submit now w =
     Blocked (w\<lparr>doc := (doc w)\<lparr>toast_text := ''Please enter a valid email'', toast_shown := True\<rparr>\<rparr>)"
  using assms by (simp add: email_submit_def showToast_def)

lemma form_submitted_event:
  "is_event ''form_submitted'' (spread [(''event'', JStr ''form_submitted''), (''timestamp'', t),
       (''variant'', v), (''sessionId'', i)] [(''formType'', f), (''variant'', v')])"
  "is_event ''form_submitted'' (spread [(''event'', JStr ''form_submitted''), (''timestamp'', t),
       (''variant'', v), (''sessionId'', i)] [(''formType'', f)])"
  by (simp_all add: is_event_def get_prop_spread) (simp_all add: get_prop_def)

lemma enterprise_complete_st:
  "st (enterprise_complete formData now w) =
     (st w)\<lparr>leads := leads (st w) @
              [\<lparr>lead_type = ''enterprise'', lead_timestamp = now, lead_data = formData\<rparr>],
            events := events (st w) @
              [spread [(''event'', JStr ''form_submitted''), (''timestamp'', JIso now),
                       (''variant'', JStr (variant_str (variant (st w)))),
                       (''sessionId'', JStr (sessionId (st w)))]
                 [(''formType'', JStr ''enterprise''),
                  (''variant'', JStr (variant_str (variant (st w))))]]\<rparr>"
  by (simp add: enterprise_complete_def Let_def track_def trackEvent_def)

lemma closeModal_st:
  "st (closeModal k now w) =
     (case modal_active (doc w) k of
        None \<Rightarrow> st w
      | Some b \<Rightarrow> (st w)\<lparr>events := events (st w) @
           [spread [(''event'', JStr ''modal_closed''), (''timestamp'', JIso now),
                    (''variant'', JStr (variant_str (variant (st w)))),
                    (''sessionId'', JStr (sessionId (st w)))]
                   [(''modal'', JStr (modal_key k))]]\<rparr>)"
  by (simp add: closeModal_def track_def trackEvent_def split: option.splits)

lemma enterprise_reset_st: "st (enterprise_reset now w) = st (closeModal Enterprise now w)"
  by (simp add: enterprise_reset_def Let_def)

lemma carrier_reset_st: "st (carrier_reset now w) = st (closeModal Carrier now w)"
  by (simp add: carrier_reset_def Let_def)

lemma closeModal_events:
  "\<exists>es. events (st (closeModal k now w)) = events (st w) @ es \<and> length es \<le> 1
        \<and> (\<forall>e \<in> set es. is_event ''modal_closed'' e)"
proof (cases "modal_active (doc w) k")
  case None
  then show ?thesis by (simp add: closeModal_st)
next
  case (Some b)
  then show ?thesis
    by (simp add: closeModal_st modal_closed_event)
qed

lemma closeModal_frame:
  "leads (st (closeModal k now w)) = leads (st w)"
  "sessionId (st (closeModal k now w)) = sessionId (st w)"
  "variant (st (closeModal k now w)) = variant (st w)"
  "startTime (st (closeModal k now w)) = startTime (st w)"
  "scrollDepths (st (closeModal k now w)) = scrollDepths (st w)"
  "timeMilestones (st (closeModal k now w)) = timeMilestones (st w)"
  by (simp_all add: closeModal_st split: option.splits)

lemma modal_closed_not_submitted: "is_event ''modal_closed'' e \<Longrightarrow> \<not> is_event ''form_submitted'' e"
  by (simp add: is_event_def)

lemma ex_world_st:
  "leads (st ex_world) = []"
  "events (st ex_world) =
     [[(''event'', JStr ''page_view''), (''timestamp'', JIso 1000), (''variant'', JStr ''A''),
       (''sessionId'', JStr ''session_1000_k3j9x2m1q'')]]"
  "scrollDepths (st ex_world) = {}" "timeMilestones (st ex_world) = {}"
  by (simp_all add: ex_world_def page_load_def init_state_def trackEvent_def Let_def spread_def
      generateSessionId_def string_of_int_def string_of_nat.simps assign_variant_def)

lemma ex_email_ok: "test emailRegex ''ada@example.com''"
  by (simp add: test_def emailRegex_def Plus_def is_space_def)

lemma ex_world_valid:
  "\<forall>x \<in> set (inputs (doc ex_world)). required_in ''enterpriseForm'' x \<longrightarrow> fst (validate x)"
  by (simp add: ex_world_doc ex_dom_def ex_input_def required_in_def validate_def trim_def
      is_space_def test_nameRegex is_letter_def ex_email_ok Let_def)

lemma ex_world_fields: "collect (doc ex_world) enterprise_fields = Some ex_formData"
  by (simp add: ex_world_doc ex_dom_def ex_input_def enterprise_fields_def field_value_def
      ex_formData_def)

text \<open>
  C1. When every required field of the enterprise form passes validation (and the six
  fields the handler reads exist, with the values \<open>formData\<close>), the handler reaches its
  \<^verbatim>\<open>await\<close> with \<open>formData\<close> and \<^verbatim>\<open>state\<close> untouched; its continuation appends to whatever
  the leads and events are by then exactly one lead, of type \<^verbatim>\<open>enterprise\<close> with
  \<open>formData\<close>, and exactly one event, a \<^verbatim>\<open>form_submitted\<close>; the timer callback appends no
  lead and no \<^verbatim>\<open>form_submitted\<close> event. Run through without another handler in between,
  the flow grows the leads by that one record and the events by exactly one
  \<^verbatim>\<open>form_submitted\<close> event.
\<close>

theorem enterprise_submission_one_lead_one_event:
  assumes valid: "\<forall>x \<in> set (inputs (doc w)). required_in ''enterpriseForm'' x \<longrightarrow> fst (validate x)"
    and fields: "collect (doc w) enterprise_fields = Some formData"
  shows "(\<exists>w1. enterprise_submit w = Pending w1 formData \<and> st w1 = st w)
    \<and> (\<forall>now w'.
          leads (st (enterprise_complete formData now w')) =
            leads (st w') @ [\<lparr>lead_type = ''enterprise'', lead_timestamp = now, lead_data = formData\<rparr>]
          \<and> (\<exists>e. events (st (enterprise_complete formData now w')) = events (st w') @ [e]
                 \<and> is_event ''form_submitted'' e))
    \<and> (\<forall>now w'.
          leads (st (enterprise_reset now w')) = leads (st w')
          \<and> (\<exists>es. events (st (enterprise_reset now w')) = events (st w') @ es
                  \<and> (\<forall>e \<in> set es. \<not> is_event ''form_submitted'' e)))
    \<and> (\<exists>w2 es. enterprise_flow t1 t2 w = Some w2
          \<and> leads (st w2) =
              leads (st w) @ [\<lparr>lead_type = ''enterprise'', lead_timestamp = t1, lead_data = formData\<rparr>]
          \<and> events (st w2) = events (st w) @ es
          \<and> length (filter (is_event ''form_submitted'') es) = 1)"
proof -
  note pending = enterprise_submit_pending [OF valid fields]
  have first: "\<exists>w1. enterprise_submit w = Pending w1 formData \<and> st w1 = st w"
    by (simp add: pending)
  have complete: "leads (st (enterprise_complete formData now w')) =
            leads (st w') @ [\<lparr>lead_type = ''enterprise'', lead_timestamp = now, lead_data = formData\<rparr>]
          \<and> (\<exists>e. events (st (enterprise_complete formData now w')) = events (st w') @ [e]
                 \<and> is_event ''form_submitted'' e)" for now w'
    by (simp add: enterprise_complete_st form_submitted_event)
  have reset: "leads (st (enterprise_reset now w')) = leads (st w')
          \<and> (\<exists>es. events (st (enterprise_reset now w')) = events (st w') @ es
                  \<and> (\<forall>e \<in> set es. \<not> is_event ''form_submitted'' e))" for now w'
  proof -
    from closeModal_events [of Enterprise now w'] obtain es where
      "events (st (closeModal Enterprise now w')) = events (st w') @ es"
      "\<forall>e \<in> set es. is_event ''modal_closed'' e" by auto
    then have "\<exists>es. events (st (enterprise_reset now w')) = events (st w') @ es
                  \<and> (\<forall>e \<in> set es. \<not> is_event ''form_submitted'' e)"
      by (auto simp: enterprise_reset_st dest: modal_closed_not_submitted)
    then show ?thesis by (simp add: enterprise_reset_st closeModal_frame)
  qed
  have flow: "\<exists>w2 es. enterprise_flow t1 t2 w = Some w2
          \<and> leads (st w2) =
              leads (st w) @ [\<lparr>lead_type = ''enterprise'', lead_timestamp = t1, lead_data = formData\<rparr>]
          \<and> events (st w2) = events (st w) @ es
          \<and> length (filter (is_event ''form_submitted'') es) = 1"
  proof -
    from first obtain w1 where w1: "enterprise_submit w = Pending w1 formData" "st w1 = st w"
      by auto
    let ?w2 = "enterprise_complete formData t1 w1"
    let ?w3 = "enterprise_reset t2 ?w2"
    from complete [of t1 w1] w1(2) obtain e where
      e: "events (st ?w2) = events (st w) @ [e]" "is_event ''form_submitted'' e" by auto
    from reset [of t2 ?w2] obtain es where
      es: "events (st ?w3) = events (st ?w2) @ es" "\<forall>e \<in> set es. \<not> is_event ''form_submitted'' e"
      by auto
    have "enterprise_flow t1 t2 w = Some ?w3" by (simp add: enterprise_flow_def w1(1))
    moreover have "leads (st ?w3) =
        leads (st w) @ [\<lparr>lead_type = ''enterprise'', lead_timestamp = t1, lead_data = formData\<rparr>]"
      using complete [of t1 w1] reset [of t2 ?w2] w1(2) by simp
    moreover have "events (st ?w3) = events (st w) @ (e # es)" using e(1) es(1) by simp
    moreover have "length (filter (is_event ''form_submitted'') (e # es)) = 1"
      using e(2) es(2) by (simp add: filter_empty_conv)
    ultimately show ?thesis by blast
  qed
  from first complete reset flow show ?thesis by blast
qed

theorem enterprise_submission_one_lead_one_event_witness:
  "\<exists>w2. enterprise_flow 2500 5500 ex_world = Some w2
     \<and> leads (st w2) = [\<lparr>lead_type = ''enterprise'', lead_timestamp = 2500, lead_data = ex_formData\<rparr>]
     \<and> length (filter (is_event ''form_submitted'') (events (st w2))) = 1"
proof -
  from enterprise_submission_one_lead_one_event [OF ex_world_valid ex_world_fields, of 2500 5500]
  obtain w2 es where w2: "enterprise_flow 2500 5500 ex_world = Some w2"
    "leads (st w2) = leads (st ex_world) @
        [\<lparr>lead_type = ''enterprise'', lead_timestamp = 2500, lead_data = ex_formData\<rparr>]"
    "events (st w2) = events (st ex_world) @ es"
    "length (filter (is_event ''form_submitted'') es) = 1"
    by (elim conjE exE)
  have "\<not> is_event ''form_submitted'' (hd (events (st ex_world)))"
    by (simp add: ex_world_st is_event_def get_prop_def)
  then have "length (filter (is_event ''form_submitted'') (events (st w2))) = 1"
    using w2(3,4) by (simp add: ex_world_st)
  with w2(1,2) show ?thesis by (simp add: ex_world_st)
qed

lemma validate_message_nonempty: "\<not> fst (validate x) \<Longrightarrow> snd (validate x) \<noteq> []"
  by (auto simp: validate_def Let_def split: if_splits option.splits)

lemma required_in_marked: "required_in f (marked x) = required_in f x"
  by (simp add: required_in_def)

lemma marked_failing:
  assumes "\<not> (\<forall>x \<in> set xs. required_in f x \<longrightarrow> fst (validate x))"
  shows "\<exists>y \<in> set (map (\<lambda>x. if required_in f x then marked x else x) xs).
           required_in f y \<and> inp_invalid y \<and> \<not> inp_valid y"
proof -
  from assms obtain x where x: "x \<in> set xs" "required_in f x" "\<not> fst (validate x)" by blast
  then have "marked x \<in> set (map (\<lambda>x. if required_in f x then marked x else x) xs)"
    by force
  moreover from x have "required_in f (marked x)" "inp_invalid (marked x)" "\<not> inp_valid (marked x)"
    by (simp_all add: required_in_marked) (simp_all add: marked_def)
  ultimately show ?thesis by blast
qed

lemma with_message_keeps: "tx k \<noteq> None \<Longrightarrow> with_message x tx k \<noteq> None"
  by (simp add: with_message_def)

lemma with_message_here:
  "tx (inp_id x @ ''Error'') \<noteq> None \<Longrightarrow> with_message x tx (inp_id x @ ''Error'') = Some (snd (validate x))"
  by (simp add: with_message_def)

lemma fold_message:
  assumes "distinct (map inp_id xs)"
  shows "x \<in> set xs \<Longrightarrow> sel x \<Longrightarrow> tx (inp_id x @ ''Error'') \<noteq> None \<Longrightarrow>
     fold (\<lambda>x t. if sel x then with_message x t else t) xs tx (inp_id x @ ''Error'')
       = Some (snd (validate x))"
  using assms
proof (induction xs arbitrary: tx)
  case Nil
  then show ?case by simp
next
  case (Cons a xs)
  show ?case
  proof (cases "x = a")
    case True
    from Cons.prems(4) have "\<forall>y \<in> set xs. inp_id a @ ''Error'' \<noteq> inp_id y @ ''Error''"
      by auto
    then have "fold (\<lambda>x t. if sel x then with_message x t else t) xs (with_message a tx)
        (inp_id a @ ''Error'') = with_message a tx (inp_id a @ ''Error'')"
      by (rule fold_with_message_elsewhere)
    with Cons.prems(2,3) True show ?thesis by (simp add: with_message_here)
  next
    case False
    with Cons.prems(1) have x: "x \<in> set xs" by simp
    from Cons.prems(4) have d: "distinct (map inp_id xs)" by simp
    let ?tx = "if sel a then with_message a tx else tx"
    have "?tx (inp_id x @ ''Error'') \<noteq> None"
      using Cons.prems(3) with_message_keeps [of tx "inp_id x @ ''Error''" a]
      by (cases "sel a") simp_all
    note nn = this
    from Cons.IH [of "if sel a then with_message a tx else tx", OF x Cons.prems(2) nn d]
    show ?thesis by simp
  qed
qed

lemma email_submit_completed:
  assumes "field_value (doc w) ''quickEmail'' = Some v" and "test emailRegex (trim v)"
  shows "\<exists>w1. email_submit now w = Completed w1
     \<and> leads (st w1) = leads (st w) @
          [\<lparr>lead_type = ''email'', lead_timestamp = now, lead_data = [(''email'', trim v)]\<rparr>]"
  using assms by (simp add: email_submit_def Let_def track_def trackEvent_def)

text \<open>
  C5. A submission that fails the gate is blocked before the submitting phase. For the
  enterprise and the carrier form (some required field fails validation) the handler ends
  at its early \<^verbatim>\<open>return\<close>: \<^verbatim>\<open>state\<close> is unchanged, so no lead and no event is added, the
  submit button is not put into its loading state, and the document changes in exactly
  three places. Every required field of the form gets its markers (\<^verbatim>\<open>invalid\<close> when it
  fails, \<^verbatim>\<open>valid\<close> when it passes with a value), so some required field is marked invalid;
  the error element of every required field, where it exists, gets the field's message
  (shown for pages whose controls have distinct ids), which is not empty for a failing
  field; and the toast shows \<^verbatim>\<open>Please fill in all required fields correctly\<close>. For the email
  form (the trimmed value fails the email expression) only the toast changes, to
  \<^verbatim>\<open>Please enter a valid email\<close>. A later submission from a corrected document passes the
  gate.
\<close>

theorem invalid_submission_blocked:
  "(\<not> (\<forall>x \<in> set (inputs (doc w)). required_in ''enterpriseForm'' x \<longrightarrow> fst (validate x)) \<longrightarrow>
      enterprise_submit w =
        Blocked (w\<lparr>doc := (doc w)
          \<lparr>inputs := map (\<lambda>x. if required_in ''enterpriseForm'' x
                       then x\<lparr>inp_valid := fst (validate x) \<and> trim (inp_value x) \<noteq> [],
                              inp_invalid := \<not> fst (validate x)\<rparr>
                       else x) (inputs (doc w)),
           texts := fold (\<lambda>x t. if required_in ''enterpriseForm'' x
                         then (if t (inp_id x @ ''Error'') = None then t
                               else t(inp_id x @ ''Error'' \<mapsto> snd (validate x)))
                         else t) (inputs (doc w)) (texts (doc w)),
           toast_text := ''Please fill in all required fields correctly'', toast_shown := True\<rparr>\<rparr>))
   \<and> (\<not> (\<forall>x \<in> set (inputs (doc w)). required_in ''enterpriseForm'' x \<longrightarrow> fst (validate x)) \<longrightarrow>
      (\<exists>y \<in> set (inputs (doc (world_of (enterprise_submit w)))).
          required_in ''enterpriseForm'' y \<and> inp_invalid y \<and> \<not> inp_valid y))
   \<and> (\<not> (\<forall>x \<in> set (inputs (doc w)). required_in ''enterpriseForm'' x \<longrightarrow> fst (validate x)) \<and> distinct (map inp_id (inputs (doc w))) \<longrightarrow>
      (\<forall>x \<in> set (inputs (doc w)).
          required_in ''enterpriseForm'' x \<and> texts (doc w) (inp_id x @ ''Error'') \<noteq> None \<longrightarrow>
          texts (doc (world_of (enterprise_submit w))) (inp_id x @ ''Error'') = Some (snd (validate x))
          \<and> (\<not> fst (validate x) \<longrightarrow> snd (validate x) \<noteq> [])))
   \<and> (\<not> (\<forall>x \<in> set (inputs (doc w)). required_in ''carrierForm'' x \<longrightarrow> fst (validate x)) \<longrightarrow>
      carrier_submit w =
        Blocked (w\<lparr>doc := (doc w)
          \<lparr>inputs := map (\<lambda>x. if required_in ''carrierForm'' x
                       then x\<lparr>inp_valid := fst (validate x) \<and> trim (inp_value x) \<noteq> [],
                              inp_invalid := \<not> fst (validate x)\<rparr>
                       else x) (inputs (doc w)),
           texts := fold (\<lambda>x t. if required_in ''carrierForm'' x
                         then (if t (inp_id x @ ''Error'') = None then t
                               else t(inp_id x @ ''Error'' \<mapsto> snd (validate x)))
                         else t) (inputs (doc w)) (texts (doc w)),
           toast_text := ''Please fill in all required fields correctly'', toast_shown := True\<rparr>\<rparr>))
   \<and> (\<not> (\<forall>x \<in> set (inputs (doc w)). required_in ''carrierForm'' x \<longrightarrow> fst (validate x)) \<longrightarrow>
      (\<exists>y \<in> set (inputs (doc (world_of (carrier_submit w)))).
          required_in ''carrierForm'' y \<and> inp_invalid y \<and> \<not> inp_valid y))
   \<and> (\<not> (\<forall>x \<in> set (inputs (doc w)). required_in ''carrierForm'' x \<longrightarrow> fst (validate x)) \<and> distinct (map inp_id (inputs (doc w))) \<longrightarrow>
      (\<forall>x \<in> set (inputs (doc w)).
          required_in ''carrierForm'' x \<and> texts (doc w) (inp_id x @ ''Error'') \<noteq> None \<longrightarrow>
          texts (doc (world_of (carrier_submit w))) (inp_id x @ ''Error'') = Some (snd (validate x))
          \<and> (\<not> fst (validate x) \<longrightarrow> snd (validate x) \<noteq> [])))
   \<and> (field_value (doc w) ''quickEmail'' = Some v \<and> \<not> test emailRegex (trim v) \<longrightarrow>
        email_submit now w =
          Blocked (w\<lparr>doc := (doc w)\<lparr>toast_text := ''Please enter a valid email'', toast_shown := True\<rparr>\<rparr>))
   \<and> ((\<forall>x \<in> set (inputs d'). required_in ''enterpriseForm'' x \<longrightarrow> fst (validate x))
        \<and> collect d' enterprise_fields = Some formData \<longrightarrow>
        (\<exists>w1. enterprise_submit (world_of (enterprise_submit w)\<lparr>doc := d'\<rparr>) = Pending w1 formData
           \<and> st w1 = st w))
   \<and> ((\<forall>x \<in> set (inputs d'). required_in ''carrierForm'' x \<longrightarrow> fst (validate x))
        \<and> collect d' carrier_fields = Some formData \<longrightarrow>
        (\<exists>w1. carrier_submit (world_of (carrier_submit w)\<lparr>doc := d'\<rparr>) = Pending w1 formData
           \<and> st w1 = st w))
   \<and> (field_value (doc w) ''quickEmail'' = Some v \<and> \<not> test emailRegex (trim v)
        \<and> field_value d' ''quickEmail'' = Some v' \<and> test emailRegex (trim v') \<longrightarrow>
        (\<exists>w1. email_submit now' (world_of (email_submit now w)\<lparr>doc := d'\<rparr>) = Completed w1
           \<and> leads (st w1) = leads (st w) @
                [\<lparr>lead_type = ''email'', lead_timestamp = now', lead_data = [(''email'', trim v')]\<rparr>]))"
proof (intro conjI impI)
  assume h: "\<not> (\<forall>x \<in> set (inputs (doc w)). required_in ''enterpriseForm'' x \<longrightarrow> fst (validate x))"
  show "enterprise_submit w =
        Blocked (w\<lparr>doc := (doc w)
          \<lparr>inputs := map (\<lambda>x. if required_in ''enterpriseForm'' x
                       then x\<lparr>inp_valid := fst (validate x) \<and> trim (inp_value x) \<noteq> [],
                              inp_invalid := \<not> fst (validate x)\<rparr>
                       else x) (inputs (doc w)),
           texts := fold (\<lambda>x t. if required_in ''enterpriseForm'' x
                         then (if t (inp_id x @ ''Error'') = None then t
                               else t(inp_id x @ ''Error'' \<mapsto> snd (validate x)))
                         else t) (inputs (doc w)) (texts (doc w)),
           toast_text := ''Please fill in all required fields correctly'', toast_shown := True\<rparr>\<rparr>)"
    by (rule enterprise_submit_blocked [OF h, unfolded marked_def with_message_def])
next
  assume h: "\<not> (\<forall>x \<in> set (inputs (doc w)). required_in ''enterpriseForm'' x \<longrightarrow> fst (validate x))"
  show "\<exists>y \<in> set (inputs (doc (world_of (enterprise_submit w)))).
          required_in ''enterpriseForm'' y \<and> inp_invalid y \<and> \<not> inp_valid y"
    using marked_failing [OF h] by (simp add: enterprise_submit_blocked [OF h] required_in_marked)
next
  assume "\<not> (\<forall>x \<in> set (inputs (doc w)). required_in ''enterpriseForm'' x \<longrightarrow> fst (validate x)) \<and> distinct (map inp_id (inputs (doc w)))"
  then have h: "\<not> (\<forall>x \<in> set (inputs (doc w)). required_in ''enterpriseForm'' x \<longrightarrow> fst (validate x))"
    and d: "distinct (map inp_id (inputs (doc w)))" by blast+
  show "\<forall>x \<in> set (inputs (doc w)).
          required_in ''enterpriseForm'' x \<and> texts (doc w) (inp_id x @ ''Error'') \<noteq> None \<longrightarrow>
          texts (doc (world_of (enterprise_submit w))) (inp_id x @ ''Error'') = Some (snd (validate x))
          \<and> (\<not> fst (validate x) \<longrightarrow> snd (validate x) \<noteq> [])"
    by (simp add: enterprise_submit_blocked [OF h] fold_message [OF d] validate_message_nonempty)
next
  assume h: "\<not> (\<forall>x \<in> set (inputs (doc w)). required_in ''carrierForm'' x \<longrightarrow> fst (validate x))"
  show "carrier_submit w =
        Blocked (w\<lparr>doc := (doc w)
          \<lparr>inputs := map (\<lambda>x. if required_in ''carrierForm'' x
                       then x\<lparr>inp_valid := fst (validate x) \<and> trim (inp_value x) \<noteq> [],
                              inp_invalid := \<not> fst (validate x)\<rparr>
                       else x) (inputs (doc w)),
           texts := fold (\<lambda>x t. if required_in ''carrierForm'' x
                         then (if t (inp_id x @ ''Error'') = None then t
                               else t(inp_id x @ ''Error'' \<mapsto> snd (validate x)))
                         else t) (inputs (doc w)) (texts (doc w)),
           toast_text := ''Please fill in all required fields correctly'', toast_shown := True\<rparr>\<rparr>)"
    by (rule carrier_submit_blocked [OF h, unfolded marked_def with_message_def])
next
  assume h: "\<not> (\<forall>x \<in> set (inputs (doc w)). required_in ''carrierForm'' x \<longrightarrow> fst (validate x))"
  show "\<exists>y \<in> set (inputs (doc (world_of (carrier_submit w)))).
          required_in ''carrierForm'' y \<and> inp_invalid y \<and> \<not> inp_valid y"
    using marked_failing [OF h] by (simp add: carrier_submit_blocked [OF h] required_in_marked)
next
  assume "\<not> (\<forall>x \<in> set (inputs (doc w)). required_in ''carrierForm'' x \<longrightarrow> fst (validate x)) \<and> distinct (map inp_id (inputs (doc w)))"
  then have h: "\<not> (\<forall>x \<in> set (inputs (doc w)). required_in ''carrierForm'' x \<longrightarrow> fst (validate x))"
    and d: "distinct (map inp_id (inputs (doc w)))" by blast+
  show "\<forall>x \<in> set (inputs (doc w)).
          required_in ''carrierForm'' x \<and> texts (doc w) (inp_id x @ ''Error'') \<noteq> None \<longrightarrow>
          texts (doc (world_of (carrier_submit w))) (inp_id x @ ''Error'') = Some (snd (validate x))
          \<and> (\<not> fst (validate x) \<longrightarrow> snd (validate x) \<noteq> [])"
    by (simp add: carrier_submit_blocked [OF h] fold_message [OF d] validate_message_nonempty)
next
  assume "field_value (doc w) ''quickEmail'' = Some v \<and> \<not> test emailRegex (trim v)"
  then show "email_submit now w =
          Blocked (w\<lparr>doc := (doc w)\<lparr>toast_text := ''Please enter a valid email'', toast_shown := True\<rparr>\<rparr>)"
    by (simp add: email_submit_blocked)
next
  let ?w' = "world_of (enterprise_submit w)\<lparr>doc := d'\<rparr>"
  assume a: "(\<forall>x \<in> set (inputs d'). required_in ''enterpriseForm'' x \<longrightarrow> fst (validate x))
        \<and> collect d' enterprise_fields = Some formData"
  have st: "st (world_of (enterprise_submit w)) = st w"
    by (cases "\<forall>x \<in> set (inputs (doc w)). required_in ''enterpriseForm'' x \<longrightarrow> fst (validate x)")
       (simp_all add: enterprise_submit_def validate_inputs_eq Let_def split: option.splits)
  from a have "enterprise_submit ?w' = Pending (?w'\<lparr>doc := (doc ?w')
        \<lparr>inputs := map (\<lambda>x. if required_in ''enterpriseForm'' x then marked x else x) (inputs (doc ?w')),
         texts := fold (\<lambda>x t. if required_in ''enterpriseForm'' x then with_message x t else t)
                    (inputs (doc ?w')) (texts (doc ?w')),
         enterprise_ui := (enterprise_ui (doc ?w'))\<lparr>loading := True, disabled := True\<rparr>\<rparr>\<rparr>) formData"
    by (intro enterprise_submit_pending) simp_all
  then show "\<exists>w1. enterprise_submit ?w' = Pending w1 formData \<and> st w1 = st w"
    by (simp add: st)
next
  let ?w' = "world_of (carrier_submit w)\<lparr>doc := d'\<rparr>"
  assume a: "(\<forall>x \<in> set (inputs d'). required_in ''carrierForm'' x \<longrightarrow> fst (validate x))
        \<and> collect d' carrier_fields = Some formData"
  have st: "st (world_of (carrier_submit w)) = st w"
    by (cases "\<forall>x \<in> set (inputs (doc w)). required_in ''carrierForm'' x \<longrightarrow> fst (validate x)")
       (simp_all add: carrier_submit_def validate_inputs_eq Let_def split: option.splits)
  from a have "carrier_submit ?w' = Pending (?w'\<lparr>doc := (doc ?w')
        \<lparr>inputs := map (\<lambda>x. if required_in ''carrierForm'' x then marked x else x) (inputs (doc ?w')),
         texts := fold (\<lambda>x t. if required_in ''carrierForm'' x then with_message x t else t)
                    (inputs (doc ?w')) (texts (doc ?w')),
         carrier_ui := (carrier_ui (doc ?w'))\<lparr>loading := True, disabled := True\<rparr>\<rparr>\<rparr>) formData"
    by (intro carrier_submit_pending) simp_all
  then show "\<exists>w1. carrier_submit ?w' = Pending w1 formData \<and> st w1 = st w"
    by (simp add: st)
next
  let ?w' = "world_of (email_submit now w)\<lparr>doc := d'\<rparr>"
  assume a: "field_value (doc w) ''quickEmail'' = Some v \<and> \<not> test emailRegex (trim v)
        \<and> field_value d' ''quickEmail'' = Some v' \<and> test emailRegex (trim v')"
  then have st: "st ?w' = st w" by (simp add: email_submit_blocked)
  from a have "field_value (doc ?w') ''quickEmail'' = Some v'" "test emailRegex (trim v')"
    by simp_all
  from email_submit_completed [OF this, of now']
  show "\<exists>w1. email_submit now' ?w' = Completed w1
           \<and> leads (st w1) = leads (st w) @
                [\<lparr>lead_type = ''email'', lead_timestamp = now', lead_data = [(''email'', trim v')]\<rparr>]"
    by (simp add: st)
qed

lemma ex_world_empty_name_doc:
  "inputs (doc ex_world_empty_name) =
        [ex_input ''enterpriseForm'' ''entName'' ''text'' [],
         ex_input ''enterpriseForm'' ''entEmail'' ''email'' ''ada@example.com'',
         ex_input ''enterpriseForm'' ''entCompany'' ''text'' ''Engines'',
         ex_input ''enterpriseForm'' ''entPhone'' ''tel'' ''(555) 010-0100'',
         ex_input ''enterpriseForm'' ''entFleetSize'' ''select-one'' ''11-50'',
         (ex_input ''enterpriseForm'' ''entMessage'' ''textarea'' [])\<lparr>inp_required := False\<rparr>,
         ex_input ''carrierForm'' ''carDOT'' ''text'' ''1234567890'',
         (ex_input ''emailCaptureForm'' ''quickEmail'' ''email'' ''a@b'')\<lparr>inp_form_input := False\<rparr>]"
  "toast_shown (doc ex_world_empty_name) = False"
  "st ex_world_empty_name = st ex_world"
  by (simp_all add: ex_world_empty_name_def ex_world_doc ex_dom_def ex_input_def)

lemma ex_world_empty_name_invalid:
  "\<not> (\<forall>x \<in> set (inputs (doc ex_world_empty_name)).
        required_in ''enterpriseForm'' x \<longrightarrow> fst (validate x))"
proof -
  have "required_in ''enterpriseForm'' (ex_input ''enterpriseForm'' ''entName'' ''text'' [])"
    by (simp add: required_in_def ex_input_def)
  moreover have "\<not> fst (validate (ex_input ''enterpriseForm'' ''entName'' ''text'' []))"
    by (simp add: validate_def ex_input_def trim_def)
  ultimately show ?thesis
    unfolding ex_world_empty_name_doc by (meson list.set_intros(1))
qed

lemma ex_quick_email:
  "field_value (doc ex_world_empty_name) ''quickEmail'' = Some ''a@b''"
  "field_value (doc ex_world) ''quickEmail'' = Some ''a@b''"
  by (simp_all add: field_value_def ex_world_empty_name_doc) (simp_all add: ex_input_def ex_world_doc ex_dom_def)

lemma ex_world_empty_name_distinct: "distinct (map inp_id (inputs (doc ex_world_empty_name)))"
  by (simp add: ex_world_empty_name_doc ex_input_def)

lemma ex_world_empty_name_texts: "texts (doc ex_world_empty_name) ''entNameError'' \<noteq> None"
  by (simp add: ex_world_empty_name_def ex_world_doc ex_dom_def)

theorem invalid_submission_blocked_witness:
  "(\<exists>y \<in> set (inputs (doc (world_of (enterprise_submit ex_world_empty_name)))).
          required_in ''enterpriseForm'' y \<and> inp_invalid y \<and> \<not> inp_valid y)
   \<and> texts (doc (world_of (enterprise_submit ex_world_empty_name))) ''entNameError''
        = Some ''This field is required''
   \<and> email_submit 3000 ex_world_empty_name =
          Blocked (ex_world_empty_name\<lparr>doc := (doc ex_world_empty_name)
             \<lparr>toast_text := ''Please enter a valid email'', toast_shown := True\<rparr>\<rparr>)
   \<and> (\<exists>w1. enterprise_submit (world_of (enterprise_submit ex_world_empty_name)\<lparr>doc := doc ex_world\<rparr>)
            = Pending w1 ex_formData \<and> st w1 = st ex_world_empty_name)"
proof -
  note T = invalid_submission_blocked [where w = ex_world_empty_name and v = "''a@b''" and now = 3000
      and d' = "doc ex_world" and formData = ex_formData]
  note inv = ex_world_empty_name_invalid
  have e: "field_value (doc ex_world_empty_name) ''quickEmail'' = Some ''a@b''
      \<and> \<not> test emailRegex (trim ''a@b'')"
    by (simp add: ex_quick_email trim_literals test_email_literals)
  from T [THEN conjunct2, THEN conjunct1, THEN mp, OF inv]
  have 1: "\<exists>y \<in> set (inputs (doc (world_of (enterprise_submit ex_world_empty_name)))).
          required_in ''enterpriseForm'' y \<and> inp_invalid y \<and> \<not> inp_valid y" .
  let ?x = "ex_input ''enterpriseForm'' ''entName'' ''text'' []"
  have x: "?x \<in> set (inputs (doc ex_world_empty_name))"
    by (simp add: ex_world_empty_name_doc)
  have rx: "required_in ''enterpriseForm'' ?x \<and> texts (doc ex_world_empty_name) (inp_id ?x @ ''Error'') \<noteq> None"
    using ex_world_empty_name_texts by (simp add: required_in_def ex_input_def)
  have vx: "validate ?x = (False, ''This field is required'')"
    by (simp add: validate_def ex_input_def trim_def)
  from T [THEN conjunct2, THEN conjunct2, THEN conjunct1, THEN mp,
      OF conjI [OF inv ex_world_empty_name_distinct], THEN bspec, OF x, THEN mp, OF rx]
  have "texts (doc (world_of (enterprise_submit ex_world_empty_name))) (inp_id ?x @ ''Error'')
      = Some (snd (validate ?x))" by (rule conjunct1)
  then have 2: "texts (doc (world_of (enterprise_submit ex_world_empty_name))) ''entNameError''
        = Some ''This field is required''"
    by (simp add: vx) (simp add: ex_input_def)
  from T [THEN conjunct2, THEN conjunct2, THEN conjunct2, THEN conjunct2, THEN conjunct2,
      THEN conjunct2, THEN conjunct1, THEN mp, OF e]
  have 3: "email_submit 3000 ex_world_empty_name =
          Blocked (ex_world_empty_name\<lparr>doc := (doc ex_world_empty_name)
             \<lparr>toast_text := ''Please enter a valid email'', toast_shown := True\<rparr>\<rparr>)" .
  from T [THEN conjunct2, THEN conjunct2, THEN conjunct2, THEN conjunct2, THEN conjunct2,
      THEN conjunct2, THEN conjunct2, THEN conjunct1, THEN mp,
      OF conjI [OF ex_world_valid ex_world_fields]]
  have 4: "\<exists>w1. enterprise_submit (world_of (enterprise_submit ex_world_empty_name)\<lparr>doc := doc ex_world\<rparr>)
            = Pending w1 ex_formData \<and> st w1 = st ex_world_empty_name" .
  show ?thesis by (rule conjI [OF 1 conjI [OF 2 conjI [OF 3 4]]])
qed

text \<open>
  C5, as it is stated, fails on the code: the failure is not surfaced by inline messages and
  markers only.
  On the example page with the name left empty the enterprise submission is blocked and the
  toast comes up; on the example page the email submission (value \<^verbatim>\<open>a@b\<close>) is blocked with
  the toast as its only trace: no field marker and no text of the document changes.
\<close>

theorem invalid_submission_shows_toast:
  "(\<exists>w'. enterprise_submit ex_world_empty_name = Blocked w'
       \<and> \<not> toast_shown (doc ex_world_empty_name) \<and> toast_shown (doc w')
       \<and> toast_text (doc w') = ''Please fill in all required fields correctly'')
   \<and> (\<exists>w'. email_submit 3000 ex_world = Blocked w'
       \<and> inputs (doc w') = inputs (doc ex_world) \<and> texts (doc w') = texts (doc ex_world)
       \<and> \<not> toast_shown (doc ex_world) \<and> toast_shown (doc w')
       \<and> toast_text (doc w') = ''Please enter a valid email'')"
proof -
  have 1: "\<exists>w'. enterprise_submit ex_world_empty_name = Blocked w'
       \<and> \<not> toast_shown (doc ex_world_empty_name) \<and> toast_shown (doc w')
       \<and> toast_text (doc w') = ''Please fill in all required fields correctly''"
    by (simp add: enterprise_submit_blocked [OF ex_world_empty_name_invalid]
        ex_world_empty_name_doc(2))
  have "\<not> test emailRegex (trim ''a@b'')"
    by (simp add: trim_literals test_email_literals)
  from email_submit_blocked [OF ex_quick_email(2) this, of 3000]
  have 2: "\<exists>w'. email_submit 3000 ex_world = Blocked w'
       \<and> inputs (doc w') = inputs (doc ex_world) \<and> texts (doc w') = texts (doc ex_world)
       \<and> \<not> toast_shown (doc ex_world) \<and> toast_shown (doc w')
       \<and> toast_text (doc w') = ''Please enter a valid email''"
    by (simp add: ex_world_doc ex_dom_def)
  from 1 2 show ?thesis by (rule conjI)
qed

section \<open>Sessions\<close>

lemma appends_only_refl: "appends_only s s"
proof -
  have "s = s\<lparr>events := events s @ [], leads := leads s @ []\<rparr>" by simp
  then show ?thesis unfolding appends_only_def by (intro exI [of _ "[]"] conjI) simp_all
qed

lemma appends_only_trans:
  assumes "appends_only s t" and "appends_only t u"
  shows "appends_only s u"
proof -
  from assms(1) obtain es ls where t: "t = s\<lparr>events := events s @ es, leads := leads s @ ls\<rparr>"
    and es: "list_all (\<lambda>e. \<not> is_event ''scroll_depth'' e \<and> \<not> is_event ''time_on_page'' e) es"
    unfolding appends_only_def by blast
  from assms(2) obtain es' ls' where u: "u = t\<lparr>events := events t @ es', leads := leads t @ ls'\<rparr>"
    and es': "list_all (\<lambda>e. \<not> is_event ''scroll_depth'' e \<and> \<not> is_event ''time_on_page'' e) es'"
    unfolding appends_only_def by blast
  have "u = s\<lparr>events := events s @ (es @ es'), leads := leads s @ (ls @ ls')\<rparr>"
    by (simp add: u t)
  moreover have "list_all (\<lambda>e. \<not> is_event ''scroll_depth'' e \<and> \<not> is_event ''time_on_page'' e) (es @ es')"
    using es es' by simp
  ultimately show ?thesis unfolding appends_only_def by blast
qed

lemma is_event_tracked:
  assumes "''event'' \<notin> fst ` set data"
  shows "is_event n (spread [(''event'', JStr n'), (''timestamp'', t), (''variant'', v),
                               (''sessionId'', i)] data) \<longleftrightarrow> n = n'"
proof -
  from assms have "map_of (rev data) ''event'' = None"
    by (simp add: map_of_eq_None_iff)
  then show ?thesis
    by (simp add: is_event_def get_prop_spread) (auto simp: get_prop_def)
qed

lemma trackEvent_appends:
  assumes "''event'' \<notin> fst ` set data" and "n \<noteq> ''scroll_depth''" and "n \<noteq> ''time_on_page''"
  shows "appends_only s (trackEvent n data now s)"
proof -
  let ?e = "spread [(''event'', JStr n), (''timestamp'', JIso now),
                    (''variant'', JStr (variant_str (variant s))),
                    (''sessionId'', JStr (sessionId s))] data"
  have "trackEvent n data now s = s\<lparr>events := events s @ [?e], leads := leads s @ []\<rparr>"
    by (simp add: trackEvent_def)
  moreover have "list_all (\<lambda>e. \<not> is_event ''scroll_depth'' e \<and> \<not> is_event ''time_on_page'' e) [?e]"
    using assms by (simp add: is_event_tracked)
  ultimately show ?thesis unfolding appends_only_def by blast
qed

lemma track_appends:
  assumes "''event'' \<notin> fst ` set data" and "n \<noteq> ''scroll_depth''" and "n \<noteq> ''time_on_page''"
  shows "appends_only (st w) (st (track n data now w))"
  using trackEvent_appends [OF assms] by (simp add: track_def)

lemma openModal_appends: "appends_only (st w) (st (openModal k now w))"
proof (cases "modal_active (doc w) k")
  case None
  then show ?thesis by (simp add: openModal_def appends_only_refl)
next
  case (Some b)
  have "appends_only (st w) (trackEvent ''modal_opened'' [(''modal'', JStr (modal_key k))] now (st w))"
    by (rule trackEvent_appends) simp_all
  with Some show ?thesis by (simp add: openModal_def track_def)
qed

lemma closeModal_appends: "appends_only (st w) (st (closeModal k now w))"
proof (cases "modal_active (doc w) k")
  case None
  then show ?thesis by (simp add: closeModal_def appends_only_refl)
next
  case (Some b)
  have "appends_only (st w) (trackEvent ''modal_closed'' [(''modal'', JStr (modal_key k))] now (st w))"
    by (rule trackEvent_appends) simp_all
  with Some show ?thesis by (simp add: closeModal_def track_def)
qed

lemma escape_key_appends: "appends_only (st w) (st (escape_key now w))"
  unfolding escape_key_def fold_simps id_apply
  by (blast intro: appends_only_trans closeModal_appends)

lemma lead_appends: "appends_only s (s\<lparr>leads := leads s @ [l]\<rparr>)"
proof -
  have "s\<lparr>leads := leads s @ [l]\<rparr> = s\<lparr>events := events s @ [], leads := leads s @ [l]\<rparr>" by simp
  then show ?thesis unfolding appends_only_def by (intro exI [of _ "[]"] exI [of _ "[l]"] conjI) simp_all
qed

lemma enterprise_submit_st: "st (world_of (enterprise_submit w)) = st w"
  by (cases "\<forall>x \<in> set (inputs (doc w)). required_in ''enterpriseForm'' x \<longrightarrow> fst (validate x)")
     (simp_all add: enterprise_submit_def validate_inputs_eq Let_def split: option.splits)

lemma carrier_submit_st: "st (world_of (carrier_submit w)) = st w"
  by (cases "\<forall>x \<in> set (inputs (doc w)). required_in ''carrierForm'' x \<longrightarrow> fst (validate x)")
     (simp_all add: carrier_submit_def validate_inputs_eq Let_def split: option.splits)

lemma enterprise_complete_appends: "appends_only (st w) (st (enterprise_complete formData now w))"
proof -
  let ?l = "\<lparr>lead_type = ''enterprise'', lead_timestamp = now, lead_data = formData\<rparr>"
  let ?s1 = "(st w)\<lparr>leads := leads (st w) @ [?l]\<rparr>"
  have "appends_only ?s1 (trackEvent ''form_submitted''
      [(''formType'', JStr ''enterprise''), (''variant'', JStr (variant_str (variant ?s1)))] now ?s1)"
    by (rule trackEvent_appends) simp_all
  with lead_appends [of "st w" ?l] have "appends_only (st w) (trackEvent ''form_submitted''
      [(''formType'', JStr ''enterprise''), (''variant'', JStr (variant_str (variant ?s1)))] now ?s1)"
    by (rule appends_only_trans)
  then show ?thesis by (simp add: enterprise_complete_def Let_def track_def)
qed

lemma carrier_complete_appends: "appends_only (st w) (st (carrier_complete formData now w))"
proof -
  let ?l = "\<lparr>lead_type = ''carrier'', lead_timestamp = now, lead_data = formData\<rparr>"
  let ?s1 = "(st w)\<lparr>leads := leads (st w) @ [?l]\<rparr>"
  have "appends_only ?s1 (trackEvent ''form_submitted'' [(''formType'', JStr ''carrier'')] now ?s1)"
    by (rule trackEvent_appends) simp_all
  with lead_appends [of "st w" ?l]
  have "appends_only (st w) (trackEvent ''form_submitted'' [(''formType'', JStr ''carrier'')] now ?s1)"
    by (rule appends_only_trans)
  then show ?thesis by (simp add: carrier_complete_def Let_def track_def)
qed

lemma email_submit_appends: "appends_only (st w) (st (world_of (email_submit now w)))"
proof (cases "field_value (doc w) ''quickEmail''")
  case None
  then show ?thesis by (simp add: email_submit_def appends_only_refl)
next
  case (Some v)
  show ?thesis
  proof (cases "test emailRegex (trim v)")
    case False
    with Some show ?thesis by (simp add: email_submit_def appends_only_refl)
  next
    case True
    let ?l = "\<lparr>lead_type = ''email'', lead_timestamp = now, lead_data = [(''email'', trim v)]\<rparr>"
    let ?s1 = "(st w)\<lparr>leads := leads (st w) @ [?l]\<rparr>"
    have "appends_only ?s1 (trackEvent ''email_captured'' [(''email'', JStr (trim v))] now ?s1)"
      by (rule trackEvent_appends) simp_all
    with lead_appends [of "st w" ?l]
    have "appends_only (st w) (trackEvent ''email_captured'' [(''email'', JStr (trim v))] now ?s1)"
      by (rule appends_only_trans)
    with Some True show ?thesis by (simp add: email_submit_def Let_def track_def)
  qed
qed

lemma step_appends:
  assumes "\<And>p. a \<noteq> Scroll p" and "a \<noteq> Tick"
  shows "appends_only (st w) (st (step now a w))"
proof (cases a)
  case (Scroll p)
  with assms(1) [of p] show ?thesis by simp
next
  case Tick
  with assms show ?thesis by simp
next
  case HeaderSignup
  show ?thesis unfolding HeaderSignup step.simps
    by (rule appends_only_trans [OF track_appends openModal_appends]) simp_all
next
  case EnterpriseCta
  show ?thesis unfolding EnterpriseCta step.simps
    by (rule appends_only_trans [OF track_appends openModal_appends]) simp_all
next
  case CarrierCta
  show ?thesis unfolding CarrierCta step.simps
    by (rule appends_only_trans [OF track_appends openModal_appends]) simp_all
next
  case Fab
  show ?thesis unfolding Fab step.simps
    by (rule appends_only_trans [OF track_appends openModal_appends]) simp_all
next
  case ChoiceEnterprise
  show ?thesis unfolding ChoiceEnterprise step.simps
    by (rule appends_only_trans [OF closeModal_appends openModal_appends])
next
  case ChoiceCarrier
  show ?thesis unfolding ChoiceCarrier step.simps
    by (rule appends_only_trans [OF closeModal_appends openModal_appends])
next
  case FinalEnterprise
  show ?thesis unfolding FinalEnterprise step.simps
    by (rule appends_only_trans [OF openModal_appends track_appends]) simp_all
next
  case FinalCarrier
  show ?thesis unfolding FinalCarrier step.simps
    by (rule appends_only_trans [OF openModal_appends track_appends]) simp_all
next
  case EnterpriseReset
  show ?thesis
    by (simp add: EnterpriseReset enterprise_reset_st closeModal_appends)
next
  case CarrierReset
  show ?thesis
    by (simp add: CarrierReset carrier_reset_st closeModal_appends)
qed (simp_all add: track_appends closeModal_appends escape_key_appends enterprise_submit_st
      carrier_submit_st enterprise_complete_appends carrier_complete_appends
      email_submit_appends appends_only_refl)

lemma appends_only_session:
  assumes "appends_only s s'"
  shows "sessionId s' = sessionId s" "variant s' = variant s" "startTime s' = startTime s"
    "scrollDepths s' = scrollDepths s" "timeMilestones s' = timeMilestones s"
  using assms unfolding appends_only_def by auto

lemma appends_only_milestones:
  assumes "appends_only s s'" and "milestones_ok s"
  shows "milestones_ok s'"
proof -
  from assms(1) obtain es ls where s': "s' = s\<lparr>events := events s @ es, leads := leads s @ ls\<rparr>"
    and es: "list_all (\<lambda>e. \<not> is_event ''scroll_depth'' e \<and> \<not> is_event ''time_on_page'' e) es"
    unfolding appends_only_def by blast
  from es have "filter (is_scroll_depth m) es = []" "filter (is_time_on_page m) es = []" for m
    by (auto simp: filter_empty_conv list_all_iff is_scroll_depth_def is_time_on_page_def)
  with assms(2) show ?thesis
    by (simp add: milestones_ok_def s')
qed

lemma scroll_depth_event:
  "is_scroll_depth m (spread [(''event'', JStr ''scroll_depth''), (''timestamp'', t), (''variant'', v),
                               (''sessionId'', i)] [(''depth'', JNum k)]) \<longleftrightarrow> m = k"
  "\<not> is_time_on_page m (spread [(''event'', JStr ''scroll_depth''), (''timestamp'', t), (''variant'', v),
                               (''sessionId'', i)] [(''depth'', JNum k)])"
  by (auto simp: is_scroll_depth_def is_time_on_page_def is_event_tracked get_prop_spread)

lemma time_on_page_event:
  "is_time_on_page m (spread [(''event'', JStr ''time_on_page''), (''timestamp'', t), (''variant'', v),
                               (''sessionId'', i)] [(''seconds'', JNum k)]) \<longleftrightarrow> m = k"
  "\<not> is_scroll_depth m (spread [(''event'', JStr ''time_on_page''), (''timestamp'', t), (''variant'', v),
                               (''sessionId'', i)] [(''seconds'', JNum k)])"
  by (auto simp: is_scroll_depth_def is_time_on_page_def is_event_tracked get_prop_spread)

lemma milestones_okD:
  assumes "milestones_ok s"
  shows "length (filter (is_scroll_depth m) (events s)) \<le> (if m \<in> scrollDepths s then 1 else 0)"
    and "length (filter (is_time_on_page m) (events s)) \<le> (if m \<in> timeMilestones s then 1 else 0)"
  using assms unfolding milestones_ok_def by blast+

lemma scroll_milestone_ok:
  assumes ok: "milestones_ok s"
  shows "milestones_ok (scroll_milestone p now k s)"
proof (cases "js_ge p k \<and> k \<notin> scrollDepths s")
  case False
  with ok show ?thesis by (auto simp: scroll_milestone_def)
next
  case True
  define e where "e = spread [(''event'', JStr ''scroll_depth''), (''timestamp'', JIso now),
      (''variant'', JStr (variant_str (variant s))), (''sessionId'', JStr (sessionId s))]
      [(''depth'', JNum k)]"
  have s': "scroll_milestone p now k s =
      s\<lparr>scrollDepths := insert k (scrollDepths s), events := events s @ [e]\<rparr>"
    using True by (simp add: scroll_milestone_def trackEvent_def e_def)
  have e1: "is_scroll_depth m e \<longleftrightarrow> m = k" for m by (simp add: e_def scroll_depth_event)
  have e2: "\<not> is_time_on_page m e" for m by (simp add: e_def scroll_depth_event)
  from milestones_okD(1) [OF ok, of k] True
  have zero: "length (filter (is_scroll_depth k) (events s)) = 0" by simp
  show ?thesis
    unfolding milestones_ok_def s'
  proof (intro allI conjI)
    fix m
    show "length (filter (is_scroll_depth m)
            (events (s\<lparr>scrollDepths := insert k (scrollDepths s), events := events s @ [e]\<rparr>)))
          \<le> (if m \<in> scrollDepths (s\<lparr>scrollDepths := insert k (scrollDepths s),
                                      events := events s @ [e]\<rparr>) then 1 else 0)"
    proof (cases "m = k")
      case True
      with zero show ?thesis by (simp add: e1)
    next
      case False
      with milestones_okD(1) [OF ok, of m] show ?thesis by (simp add: e1)
    qed
    show "length (filter (is_time_on_page m)
            (events (s\<lparr>scrollDepths := insert k (scrollDepths s), events := events s @ [e]\<rparr>)))
          \<le> (if m \<in> timeMilestones (s\<lparr>scrollDepths := insert k (scrollDepths s),
                                        events := events s @ [e]\<rparr>) then 1 else 0)"
      using milestones_okD(2) [OF ok, of m] by (simp add: e2)
  qed
qed

lemma time_milestone_ok:
  assumes ok: "milestones_ok s"
  shows "milestones_ok (time_milestone p now k s)"
proof (cases "p \<ge> k \<and> k \<notin> timeMilestones s")
  case False
  with ok show ?thesis by (auto simp: time_milestone_def)
next
  case True
  define e where "e = spread [(''event'', JStr ''time_on_page''), (''timestamp'', JIso now),
      (''variant'', JStr (variant_str (variant s))), (''sessionId'', JStr (sessionId s))]
      [(''seconds'', JNum k)]"
  have s': "time_milestone p now k s =
      s\<lparr>timeMilestones := insert k (timeMilestones s), events := events s @ [e]\<rparr>"
    using True by (simp add: time_milestone_def trackEvent_def e_def)
  have e1: "is_time_on_page m e \<longleftrightarrow> m = k" for m by (simp add: e_def time_on_page_event)
  have e2: "\<not> is_scroll_depth m e" for m by (simp add: e_def time_on_page_event)
  from milestones_okD(2) [OF ok, of k] True
  have zero: "length (filter (is_time_on_page k) (events s)) = 0" by simp
  show ?thesis
    unfolding milestones_ok_def s'
  proof (intro allI conjI)
    fix m
    show "length (filter (is_time_on_page m)
            (events (s\<lparr>timeMilestones := insert k (timeMilestones s), events := events s @ [e]\<rparr>)))
          \<le> (if m \<in> timeMilestones (s\<lparr>timeMilestones := insert k (timeMilestones s),
                                        events := events s @ [e]\<rparr>) then 1 else 0)"
    proof (cases "m = k")
      case True
      with zero show ?thesis by (simp add: e1)
    next
      case False
      with milestones_okD(2) [OF ok, of m] show ?thesis by (simp add: e1)
    qed
    show "length (filter (is_scroll_depth m)
            (events (s\<lparr>timeMilestones := insert k (timeMilestones s), events := events s @ [e]\<rparr>)))
          \<le> (if m \<in> scrollDepths (s\<lparr>timeMilestones := insert k (timeMilestones s),
                                      events := events s @ [e]\<rparr>) then 1 else 0)"
      using milestones_okD(1) [OF ok, of m] by (simp add: e2)
  qed
qed

lemma scroll_handler_ok: "milestones_ok s \<Longrightarrow> milestones_ok (scroll_handler p now s)"
  by (simp add: scroll_handler_def scroll_milestone_ok)

lemma time_handler_ok: "milestones_ok s \<Longrightarrow> milestones_ok (time_handler now s)"
  by (simp add: time_handler_def Let_def time_milestone_ok)

lemma scroll_milestone_frame:
  "sessionId (scroll_milestone p now k s) = sessionId s"
  "variant (scroll_milestone p now k s) = variant s"
  "startTime (scroll_milestone p now k s) = startTime s"
  "scrollDepths s \<subseteq> scrollDepths (scroll_milestone p now k s)"
  "timeMilestones (scroll_milestone p now k s) = timeMilestones s"
  by (auto simp: scroll_milestone_def trackEvent_def)

lemma time_milestone_frame:
  "sessionId (time_milestone p now k s) = sessionId s"
  "variant (time_milestone p now k s) = variant s"
  "startTime (time_milestone p now k s) = startTime s"
  "scrollDepths (time_milestone p now k s) = scrollDepths s"
  "timeMilestones s \<subseteq> timeMilestones (time_milestone p now k s)"
  by (auto simp: time_milestone_def trackEvent_def)

lemma scroll_handler_frame:
  "sessionId (scroll_handler p now s) = sessionId s"
  "variant (scroll_handler p now s) = variant s"
  "startTime (scroll_handler p now s) = startTime s"
  "scrollDepths s \<subseteq> scrollDepths (scroll_handler p now s)"
  "timeMilestones (scroll_handler p now s) = timeMilestones s"
proof -
  show "sessionId (scroll_handler p now s) = sessionId s"
    "variant (scroll_handler p now s) = variant s"
    "startTime (scroll_handler p now s) = startTime s"
    "timeMilestones (scroll_handler p now s) = timeMilestones s"
    by (simp_all add: scroll_handler_def scroll_milestone_frame)
  have "scrollDepths s \<subseteq> scrollDepths (scroll_milestone p now 25 s)"
    by (rule scroll_milestone_frame)
  also have "\<dots> \<subseteq> scrollDepths (scroll_milestone p now 50 (scroll_milestone p now 25 s))"
    by (rule scroll_milestone_frame)
  also have "\<dots> \<subseteq> scrollDepths (scroll_milestone p now 75
      (scroll_milestone p now 50 (scroll_milestone p now 25 s)))"
    by (rule scroll_milestone_frame)
  also have "\<dots> \<subseteq> scrollDepths (scroll_milestone p now 100 (scroll_milestone p now 75
      (scroll_milestone p now 50 (scroll_milestone p now 25 s))))"
    by (rule scroll_milestone_frame)
  finally show "scrollDepths s \<subseteq> scrollDepths (scroll_handler p now s)"
    by (simp add: scroll_handler_def)
qed

lemma time_handler_frame:
  "sessionId (time_handler now s) = sessionId s"
  "variant (time_handler now s) = variant s"
  "startTime (time_handler now s) = startTime s"
  "scrollDepths (time_handler now s) = scrollDepths s"
  "timeMilestones s \<subseteq> timeMilestones (time_handler now s)"
proof -
  show "sessionId (time_handler now s) = sessionId s"
    "variant (time_handler now s) = variant s"
    "startTime (time_handler now s) = startTime s"
    "scrollDepths (time_handler now s) = scrollDepths s"
    by (simp_all add: time_handler_def Let_def time_milestone_frame)
  let ?t = "(now - startTime s) div 1000"
  have "timeMilestones s \<subseteq> timeMilestones (time_milestone ?t now 30 s)"
    by (rule time_milestone_frame)
  also have "\<dots> \<subseteq> timeMilestones (time_milestone ?t now 60 (time_milestone ?t now 30 s))"
    by (rule time_milestone_frame)
  also have "\<dots> \<subseteq> timeMilestones (time_milestone ?t now 120
      (time_milestone ?t now 60 (time_milestone ?t now 30 s)))"
    by (rule time_milestone_frame)
  finally show "timeMilestones s \<subseteq> timeMilestones (time_handler now s)"
    by (simp add: time_handler_def Let_def)
qed

lemma step_ok: "milestones_ok (st w) \<Longrightarrow> milestones_ok (st (step now a w))"
proof (cases "(\<exists>p. a = Scroll p) \<or> a = Tick")
  case True
  then show "milestones_ok (st w) \<Longrightarrow> milestones_ok (st (step now a w))"
    by (auto simp: scroll_handler_ok time_handler_ok)
next
  case False
  then have "appends_only (st w) (st (step now a w))"
    by (intro step_appends) auto
  then show "milestones_ok (st w) \<Longrightarrow> milestones_ok (st (step now a w))"
    by (rule appends_only_milestones)
qed

lemma step_frame:
  "sessionId (st (step now a w)) = sessionId (st w)"
  "variant (st (step now a w)) = variant (st w)"
  "startTime (st (step now a w)) = startTime (st w)"
  "scrollDepths (st w) \<subseteq> scrollDepths (st (step now a w))"
  "timeMilestones (st w) \<subseteq> timeMilestones (st (step now a w))"
proof -
  consider p where "a = Scroll p" | "a = Tick" | "\<And>p. a \<noteq> Scroll p" "a \<noteq> Tick"
    by blast
  then have "sessionId (st (step now a w)) = sessionId (st w)
    \<and> variant (st (step now a w)) = variant (st w)
    \<and> startTime (st (step now a w)) = startTime (st w)
    \<and> scrollDepths (st w) \<subseteq> scrollDepths (st (step now a w))
    \<and> timeMilestones (st w) \<subseteq> timeMilestones (st (step now a w))"
  proof cases
    case 1
    then show ?thesis by (simp add: scroll_handler_frame)
  next
    case 2
    then show ?thesis by (simp add: time_handler_frame)
  next
    case 3
    then have "appends_only (st w) (st (step now a w))" by (rule step_appends)
    then show ?thesis by (simp add: appends_only_session)
  qed
  then show "sessionId (st (step now a w)) = sessionId (st w)"
    "variant (st (step now a w)) = variant (st w)"
    "startTime (st (step now a w)) = startTime (st w)"
    "scrollDepths (st w) \<subseteq> scrollDepths (st (step now a w))"
    "timeMilestones (st w) \<subseteq> timeMilestones (st (step now a w))"
    by simp_all
qed

lemma run_Cons: "run ((now, a) # acts) w = run acts (step now a w)"
  by (simp add: run_def)

lemma run_ok: "milestones_ok (st w) \<Longrightarrow> milestones_ok (st (run acts w))"
proof (induction acts arbitrary: w)
  case Nil
  then show ?case by (simp add: run_def)
next
  case (Cons x acts)
  obtain now a where x: "x = (now, a)" by (cases x)
  from Cons.prems have "milestones_ok (st (step now a w))" by (rule step_ok)
  then show ?case unfolding x run_Cons by (rule Cons.IH)
qed

lemma run_frame:
  "sessionId (st (run acts w)) = sessionId (st w)
   \<and> variant (st (run acts w)) = variant (st w)
   \<and> startTime (st (run acts w)) = startTime (st w)
   \<and> scrollDepths (st w) \<subseteq> scrollDepths (st (run acts w))
   \<and> timeMilestones (st w) \<subseteq> timeMilestones (st (run acts w))"
proof (induction acts arbitrary: w)
  case Nil
  show ?case by (simp add: run_def)
next
  case (Cons x acts)
  obtain now a where x: "x = (now, a)" by (cases x)
  from Cons [of "step now a w"] step_frame [where now = now and a = a and w = w]
  show ?case unfolding x run_Cons by (auto simp del: step.simps)
qed

lemma page_load_ok: "milestones_ok (st (page_load now suffix draw d))"
proof -
  have "events (st (page_load now suffix draw d)) =
      [spread [(''event'', JStr ''page_view''), (''timestamp'', JIso now),
               (''variant'', JStr (variant_str (assign_variant draw))),
               (''sessionId'', JStr (generateSessionId now suffix))] []]"
    by (simp add: page_load_def Let_def trackEvent_def init_state_def)
  moreover have "\<not> is_event ''scroll_depth'' (spread [(''event'', JStr ''page_view''), (''timestamp'', JIso now),
               (''variant'', JStr (variant_str (assign_variant draw))),
               (''sessionId'', JStr (generateSessionId now suffix))] [])"
    "\<not> is_event ''time_on_page'' (spread [(''event'', JStr ''page_view''), (''timestamp'', JIso now),
               (''variant'', JStr (variant_str (assign_variant draw))),
               (''sessionId'', JStr (generateSessionId now suffix))] [])"
    by (simp_all add: is_event_tracked)
  ultimately show ?thesis
    by (simp add: milestones_ok_def is_scroll_depth_def is_time_on_page_def)
qed

text \<open>
  C2. In a session, that is after any sequence of handler runs from page load (scroll and
  timer callbacks among them, in any order and with any inputs), the events hold at most
  one \<^verbatim>\<open>scroll_depth\<close> event for each depth in 25, 50, 75, 100 and at most one
  \<^verbatim>\<open>time_on_page\<close> event for each of 30, 60, 120 seconds; and from any point of a session on,
  the two milestone sets only grow.
\<close>

theorem milestone_events_at_most_once:
  "(m \<in> {25, 50, 75, 100} \<longrightarrow>
      length (filter (is_scroll_depth m) (events (st (run acts (page_load now suffix draw d))))) \<le> 1)
   \<and> (m \<in> {30, 60, 120} \<longrightarrow>
      length (filter (is_time_on_page m) (events (st (run acts (page_load now suffix draw d))))) \<le> 1)
   \<and> scrollDepths (st w) \<subseteq> scrollDepths (st (run acts w))
   \<and> timeMilestones (st w) \<subseteq> timeMilestones (st (run acts w))"
proof -
  have ok: "milestones_ok (st (run acts (page_load now suffix draw d)))"
    by (rule run_ok [OF page_load_ok])
  have "length (filter (is_scroll_depth m) (events (st (run acts (page_load now suffix draw d))))) \<le> 1"
    using milestones_okD(1) [OF ok, of m] by (simp split: if_splits)
  moreover
  have "length (filter (is_time_on_page m) (events (st (run acts (page_load now suffix draw d))))) \<le> 1"
    using milestones_okD(2) [OF ok, of m] by (simp split: if_splits)
  ultimately show ?thesis using run_frame [of acts w] by blast
qed

lemma ex_run_st:
  "scrollDepths (st (run ex_acts ex_world)) = {25, 50, 75}"
  "timeMilestones (st (run ex_acts ex_world)) = {30}"
  "map (\<lambda>e. (get_prop e ''event'', get_prop e ''depth'', get_prop e ''seconds''))
       (events (st (run ex_acts ex_world))) =
     [(Some (JStr ''page_view''), None, None),
      (Some (JStr ''scroll_depth''), Some (JNum 25), None),
      (Some (JStr ''scroll_depth''), Some (JNum 50), None),
      (Some (JStr ''scroll_depth''), Some (JNum 75), None),
      (Some (JStr ''time_on_page''), None, Some (JNum 30))]"
  by (simp_all add: ex_acts_def run_def scroll_handler_def scroll_milestone_def time_handler_def
      time_milestone_def trackEvent_def ex_world_st ex_world_session get_prop_spread Let_def)
     (auto simp: get_prop_def)

theorem milestone_events_at_most_once_witness:
  "length (filter (is_scroll_depth 25) (events (st (run ex_acts ex_world)))) \<le> 1
   \<and> length (filter (is_time_on_page 30) (events (st (run ex_acts ex_world)))) \<le> 1
   \<and> 25 \<in> scrollDepths (st (run ex_acts ex_world))
   \<and> 30 \<in> timeMilestones (st (run ex_acts ex_world))
   \<and> scrollDepths (st ex_world) \<subseteq> scrollDepths (st (run ex_acts ex_world))"
proof -
  note T = milestone_events_at_most_once [where acts = ex_acts and now = 1000
      and suffix = "''k3j9x2m1q''" and draw = "1 / 4" and d = ex_dom and w = ex_world,
      folded ex_world_def]
  from T [where m = 25] have 1:
    "length (filter (is_scroll_depth 25) (events (st (run ex_acts ex_world)))) \<le> 1" by simp
  from T [where m = 30] have 2:
    "length (filter (is_time_on_page 30) (events (st (run ex_acts ex_world)))) \<le> 1" by simp
  from T [where m = 25] have 3:
    "scrollDepths (st ex_world) \<subseteq> scrollDepths (st (run ex_acts ex_world))" by simp
  have 4: "25 \<in> scrollDepths (st (run ex_acts ex_world))"
    "30 \<in> timeMilestones (st (run ex_acts ex_world))"
    by (simp_all add: ex_run_st)
  from 1 2 3 4 show ?thesis by (intro conjI)
qed

lemma assign_variant_iff:
  "assign_variant draw = VariantA \<longleftrightarrow> draw < 1 / 2"
  "assign_variant draw = VariantB \<longleftrightarrow> \<not> draw < 1 / 2"
  by (simp_all add: assign_variant_def)

lemma grid_draw_less_half:
  assumes "0 < n"
  shows "(of_nat k :: rat) / of_nat (2 * n) < 1 / 2 \<longleftrightarrow> k < n"
proof -
  from assms have "(0::rat) < of_nat (2 * n)" by simp
  then have "(of_nat k :: rat) / of_nat (2 * n) < 1 / 2 \<longleftrightarrow> (of_nat k :: rat) * 2 < of_nat (2 * n)"
    by (simp add: field_simps)
  also have "\<dots> \<longleftrightarrow> (of_nat (k * 2) :: rat) < of_nat (2 * n)" by simp
  also have "\<dots> \<longleftrightarrow> k * 2 < 2 * n" by (simp only: of_nat_less_iff)
  also have "\<dots> \<longleftrightarrow> k < n" by auto
  finally show ?thesis .
qed

lemma grid_half:
  assumes "0 < n"
  shows "card {k. k < 2 * n \<and> assign_variant (of_nat k / of_nat (2 * n)) = VariantA} = n"
    and "card {k. k < 2 * n \<and> assign_variant (of_nat k / of_nat (2 * n)) = VariantB} = n"
proof -
  have "{k. k < 2 * n \<and> assign_variant (of_nat k / of_nat (2 * n)) = VariantA} = {..<n}"
    using assms by (auto simp: assign_variant_iff grid_draw_less_half)
  then show "card {k. k < 2 * n \<and> assign_variant (of_nat k / of_nat (2 * n)) = VariantA} = n"
    by simp
  have "{k. k < 2 * n \<and> assign_variant (of_nat k / of_nat (2 * n)) = VariantB} = {n..<2 * n}"
    using assms by (auto simp: assign_variant_iff grid_draw_less_half)
  then show "card {k. k < 2 * n \<and> assign_variant (of_nat k / of_nat (2 * n)) = VariantB} = n"
    by simp
qed

lemma page_load_variant: "variant (st (page_load now suffix draw d)) = assign_variant draw"
  by (simp add: page_load_def Let_def trackEvent_def init_state_def)

text \<open>
  C9. Page load assigns the session one variant, \<open>A\<close> or \<open>B\<close>: \<open>A\<close> exactly when the draw is
  below \<open>1/2\<close>. The draws in \<open>[0, 1)\<close> that give \<open>A\<close> are the interval \<open>[0, 1/2)\<close> and those that
  give \<open>B\<close> the interval \<open>[1/2, 1)\<close>, of the same length; and of the \<open>2n\<close> equally spaced
  draws \<open>k/(2n)\<close> exactly \<open>n\<close> give \<open>A\<close> and \<open>n\<close> give \<open>B\<close>, so a draw uniform on such a grid
  gives each variant with probability \<open>1/2\<close>. No sequence of handler runs changes the
  session's \<^verbatim>\<open>sessionId\<close>, \<^verbatim>\<open>variant\<close> or \<^verbatim>\<open>startTime\<close>.
\<close>

theorem variant_assigned_once_session_immutable:
  "(variant (st (page_load now suffix draw d)) = VariantA \<longleftrightarrow> draw < 1 / 2)
   \<and> (variant (st (page_load now suffix draw d)) = VariantB \<longleftrightarrow> \<not> draw < 1 / 2)
   \<and> variant_str (variant (st (page_load now suffix draw d))) \<in> {''A'', ''B''}
   \<and> (variant_str (variant (st (page_load now suffix draw d))) = ''A'' \<longleftrightarrow> draw < 1 / 2)
   \<and> {r. 0 \<le> r \<and> r < 1 \<and> assign_variant r = VariantA} = {0..<1 / 2}
   \<and> {r. 0 \<le> r \<and> r < 1 \<and> assign_variant r = VariantB} = {1 / 2..<1}
   \<and> (0 < n \<longrightarrow>
        card {k. k < 2 * n \<and> assign_variant (of_nat k / of_nat (2 * n)) = VariantA} = n
      \<and> card {k. k < 2 * n \<and> assign_variant (of_nat k / of_nat (2 * n)) = VariantB} = n)
   \<and> sessionId (st (run acts w)) = sessionId (st w)
   \<and> variant (st (run acts w)) = variant (st w)
   \<and> startTime (st (run acts w)) = startTime (st w)"
proof -
  have 1: "variant (st (page_load now suffix draw d)) = VariantA \<longleftrightarrow> draw < 1 / 2"
    and 2: "variant (st (page_load now suffix draw d)) = VariantB \<longleftrightarrow> \<not> draw < 1 / 2"
    by (simp_all add: page_load_variant assign_variant_iff)
  have 3: "variant_str (variant (st (page_load now suffix draw d))) \<in> {''A'', ''B''}"
    by (cases "variant (st (page_load now suffix draw d))") simp_all
  have str: "variant_str (variant (st (page_load now suffix draw d))) = ''A'' \<longleftrightarrow> draw < 1 / 2"
    by (simp add: page_load_variant assign_variant_def)
  have 4: "{r. 0 \<le> r \<and> r < 1 \<and> assign_variant r = VariantA} = {0..<1 / 2}"
    by (auto simp: assign_variant_iff)
  have 5: "{r. 0 \<le> r \<and> r < 1 \<and> assign_variant r = VariantB} = {1 / 2..<1}"
    by (auto simp: assign_variant_iff)
  have 6: "0 < n \<longrightarrow>
        card {k. k < 2 * n \<and> assign_variant (of_nat k / of_nat (2 * n)) = VariantA} = n
      \<and> card {k. k < 2 * n \<and> assign_variant (of_nat k / of_nat (2 * n)) = VariantB} = n"
    using grid_half [of n] by blast
  from run_frame [of acts w] have 7: "sessionId (st (run acts w)) = sessionId (st w)
   \<and> variant (st (run acts w)) = variant (st w)
   \<and> startTime (st (run acts w)) = startTime (st w)" by blast
  show ?thesis
    by (rule conjI [OF 1 conjI [OF 2 conjI [OF 3 conjI [OF str conjI [OF 4 conjI [OF 5 conjI [OF 6 7]]]]]]])
qed

theorem variant_assigned_once_session_immutable_witness:
  "card {k. k < 2 * 2 ^ 52 \<and> assign_variant (of_nat k / of_nat (2 * 2 ^ 52)) = VariantA} = 2 ^ 52
   \<and> card {k. k < 2 * 2 ^ 52 \<and> assign_variant (of_nat k / of_nat (2 * 2 ^ 52)) = VariantB} = 2 ^ 52
   \<and> variant (st ex_world) = VariantA
   \<and> variant (st (run ex_acts ex_world)) = VariantA
   \<and> sessionId (st (run ex_acts ex_world)) = ''session_1000_k3j9x2m1q''
   \<and> startTime (st (run ex_acts ex_world)) = 1000"
proof -
  note T = variant_assigned_once_session_immutable [where n = "2 ^ 52" and acts = ex_acts
      and w = ex_world and now = 1000 and suffix = "''k3j9x2m1q''" and draw = "1 / 4" and d = ex_dom,
      folded ex_world_def]
  have pos: "(0::nat) < 2 ^ 52" by simp
  from T have 6: "0 < (2::nat) ^ 52 \<longrightarrow>
        card {k. k < 2 * 2 ^ 52 \<and> assign_variant (of_nat k / of_nat (2 * 2 ^ 52)) = VariantA} = 2 ^ 52
      \<and> card {k. k < 2 * 2 ^ 52 \<and> assign_variant (of_nat k / of_nat (2 * 2 ^ 52)) = VariantB} = 2 ^ 52"
    by (elim conjE)
  note cards = 6 [THEN mp, OF pos]
  from T have 1: "variant (st ex_world) = VariantA \<longleftrightarrow> (1 / 4 :: rat) < 1 / 2" by (elim conjE)
  then have a: "variant (st ex_world) = VariantA" by simp
  from T have v: "variant (st (run ex_acts ex_world)) = variant (st ex_world)" by (elim conjE)
  from T have i: "sessionId (st (run ex_acts ex_world)) = sessionId (st ex_world)" by (elim conjE)
  from T have t: "startTime (st (run ex_acts ex_world)) = startTime (st ex_world)" by (elim conjE)
  have b: "variant (st (run ex_acts ex_world)) = VariantA" by (simp only: v a)
  have c: "sessionId (st (run ex_acts ex_world)) = ''session_1000_k3j9x2m1q''"
    by (simp only: i ex_world_session)
  have e: "startTime (st (run ex_acts ex_world)) = 1000" by (simp only: t ex_world_session)
  show ?thesis
    by (rule conjI [OF cards [THEN conjunct1] conjI [OF cards [THEN conjunct2]
          conjI [OF a conjI [OF b conjI [OF c e]]]]])
qed

end
